theory Spec2Isabelle
  imports Complex_Main "HOL-Library.AList"
begin

section \<open>Python values and dictionaries\<close>

text \<open>
  The agents exchange untyped Python values (\<open>Any\<close>): tool arguments, tool results,
  context entries, metadata. \<open>pyval\<close> is the fragment of them the agent code builds or
  passes on. A \<open>dict\<close> keeps insertion order and has one entry per key, so it is an
  association list whose item assignment \<open>d[k] = v\<close> is \<open>AList.update k v d\<close>
  (replace in place when the key is there, append otherwise) and whose lookup is
  \<open>map_of\<close>.
\<close>

datatype pyval =
    VNone
  | VBool bool
  | VInt int
  | VFloat real
  | VStr string
  | VList "pyval list"
  | VDict "(string \<times> pyval) list"

type_synonym pydict = "(string \<times> pyval) list"

section \<open>agents/base\_agent.py: the data model\<close>

datatype AgentStatus = IDLE | RUNNING | COMPLETED | FAILED

text \<open>
  \<open>AgentConfig\<close>. The code below reads \<open>name\<close>, \<open>model_name\<close> and \<open>temperature\<close>;
  the other fields only reach the constructors of the model client. The two floats
  are passed on and never computed with, so any number type carries them.
\<close>

record AgentConfig =
  name :: string
  model_name :: string
  system_prompt :: string
  temperature :: real
  max_tokens :: int
  top_p :: real
  top_k :: int
  timeout :: int
  project_id :: "string option"
  location :: string

text \<open>\<open>AgentConfig(name=...)\<close>: every other field at its default.\<close>

definition default_config :: "string \<Rightarrow> AgentConfig" where
  "default_config agent_name' =
     \<lparr>name = agent_name', model_name = ''gemini-2.5-flash-preview-5-20'',
      system_prompt = ''You are a helpful AI agent.'', temperature = 0.7,
      max_tokens = 8192, top_p = 0.95, top_k = 40, timeout = 300, project_id = None,
      location = ''us-central1''\<rparr>"

text \<open>
  \<open>AgentResponse\<close>, with the dataclass defaults (\<open>metadata = {}\<close>, \<open>tool_calls = []\<close>,
  \<open>error = None\<close>) written out wherever the source leaves them to the default.
\<close>

record AgentResponse =
  agent_name :: string
  content :: string
  status :: AgentStatus
  metadata :: pydict
  tool_calls :: "pydict list"
  error :: "string option"

subsection \<open>The model client (vertexai), as the agent code uses it\<close>

text \<open>
  The client library is not part of the repository. The agent code uses of it: the
  constructors \<open>FunctionDeclaration\<close> and \<open>Tool\<close>; \<open>model.start_chat()\<close>;
  \<open>chat.send_message(...)\<close>; of a response \<open>candidates[0].content.parts\<close>, the test
  \<open>hasattr(part, 'function_call')\<close>, \<open>function_call.name\<close>, \<open>function_call.args\<close>,
  \<open>response.text\<close> and \<open>str(response)\<close>.

  A call that raises is \<open>Inl\<close> of the exception's text \<open>str(e)\<close>. The chat session is
  the client's state; here the reply to a message is a function of all messages sent
  in the session so far, the last one being the current message.
\<close>

datatype FunctionDeclaration =
  FunctionDeclaration (decl_name: string) (decl_description: string) (decl_parameters: pydict)

datatype Tool = Tool (function_declarations: "FunctionDeclaration list")

datatype FunctionCall = FunctionCall (call_name: string) (args: pydict)

datatype Part =
    FunctionCallPart FunctionCall \<comment> \<open>\<open>hasattr(part, 'function_call')\<close> holds\<close>
  | TextPart string

datatype text_attribute =
    NoTextAttribute \<comment> \<open>\<open>hasattr(response, 'text')\<close> is false\<close>
  | TextRaises string \<comment> \<open>reading \<open>response.text\<close> raises\<close>
  | TextIs string

record GenerationResponse =
  candidates :: "Part list list" \<comment> \<open>\<open>candidates[i].content.parts\<close>\<close>
  text_attr :: text_attribute
  str_of_response :: string \<comment> \<open>\<open>str(response)\<close>\<close>

datatype message =
    PromptMessage string "Tool list option" \<comment> \<open>prompt, \<open>tools=\<close> when given\<close>
  | FunctionResponse string pydict \<comment> \<open>\<open>Part.from_function_response(name, response)\<close>\<close>

record GenerativeModel =
  start_chat :: "string option" \<comment> \<open>\<open>Some e\<close>: \<open>start_chat()\<close> raises \<open>e\<close>\<close>
  send_message :: "message list \<Rightarrow> string + GenerationResponse"

text \<open>The calls an agent makes on its model, in order.\<close>

datatype gateway_call = StartChat | SendMessage message

subsection \<open>BaseAgent\<close>

text \<open>
  A tool function is called with keyword arguments and returns a value or raises
  (the tools of the repository report their failures in the value returned, and what
  a tool raises is taken to be of class \<open>Exception\<close>, as for the model client);
  \<open>tool_functions\<close> is the dict from tool name to function, \<open>tools\<close> the list of
  schemas handed to the model. \<open>self.status\<close> is \<open>agent_status\<close> here (the response
  has a \<open>status\<close> of its own). \<open>model = None\<close> is an agent whose model was not
  initialised.
\<close>

type_synonym tool_function = "pydict \<Rightarrow> string + pyval"

record BaseAgent =
  config :: AgentConfig
  agent_status :: AgentStatus
  tools :: "Tool list"
  tool_functions :: "(string \<times> tool_function) list"
  model :: "GenerativeModel option"

text \<open>
  \<open>add_tool\<close>. It builds \<open>Tool(function_declarations=[FunctionDeclaration(name=tool_name,
  description=tool_description, parameters=parameters)])\<close>. The two constructors
  are the client library's and may refuse their arguments: \<open>schema_error\<close> gives
  the text of the exception they raise then (\<open>None\<close> when they accept). \<open>add_tool\<close>
  catches the exception and registers nothing.
\<close>

definition add_tool ::
  "(string \<Rightarrow> string \<Rightarrow> pydict \<Rightarrow> string option) \<Rightarrow>
   BaseAgent \<Rightarrow> string \<Rightarrow> string \<Rightarrow> tool_function \<Rightarrow> pydict \<Rightarrow> BaseAgent" where
  "add_tool schema_error self tool_name tool_description tool_function parameters =
     (case schema_error tool_name tool_description parameters of
        Some e \<Rightarrow> self
      | None \<Rightarrow>
          self\<lparr>tools := tools self
                 @ [Tool [FunctionDeclaration tool_name tool_description parameters]],
               tool_functions := AList.update tool_name tool_function (tool_functions self)\<rparr>)"

text \<open>Constructors that accept every schema.\<close>

definition any_schema :: "string \<Rightarrow> string \<Rightarrow> pydict \<Rightarrow> string option" where
  "any_schema tool_name tool_description parameters = None"

text \<open>\<open>_handle_tool_call\<close>: it returns on every path.\<close>

definition handle_tool_call :: "'a BaseAgent_scheme \<Rightarrow> FunctionCall \<Rightarrow> pyval" where
  "handle_tool_call self function_call =
     (let function_name = call_name function_call;
          function_args = args function_call
      in case map_of (tool_functions self) function_name of
           None \<Rightarrow> VDict [(''error'', VStr (''Tool not found: '' @ function_name))]
         | Some f \<Rightarrow>
             (case f function_args of
                Inr result \<Rightarrow> result
              | Inl e \<Rightarrow> VDict [(''error'', VStr (''Tool execution failed: '' @ e))]))"

text \<open>
  The \<open>while\<close> loop of \<open>generate_with_tools\<close>. It has no bound: a model that keeps
  asking for tools keeps it running, so the loop is a partial function and \<open>None\<close> is
  the run that never leaves it. \<open>sent\<close> is the list of messages sent in the chat so
  far. The loop is left by \<open>break\<close> or a false condition (\<open>LoopDone\<close>, with the last
  response) or by an exception (\<open>LoopRaised\<close>, with \<open>str(e)\<close>); both carry the value
  the local \<open>tool_calls\<close> (here \<open>records\<close>) has at that moment.
\<close>

datatype loop_exit =
    LoopRaised string "pydict list"
  | LoopDone GenerationResponse "pydict list"

definition tool_call_record :: "FunctionCall \<Rightarrow> pyval \<Rightarrow> pydict" where
  "tool_call_record function_call tool_result =
     [(''function'', VStr (call_name function_call)),
      (''args'', VDict (args function_call)),
      (''result'', tool_result)]"

partial_function (option) tool_loop ::
  "'a BaseAgent_scheme \<Rightarrow> GenerativeModel \<Rightarrow> message list \<Rightarrow> GenerationResponse \<Rightarrow> pydict list \<Rightarrow>
   (loop_exit \<times> message list) option" where
  "tool_loop self chat sent response records =
     (case candidates response of
        [] \<Rightarrow> Some (LoopRaised ''list index out of range'' records, sent)
      | parts # _ \<Rightarrow>
          (case parts of
             [] \<Rightarrow> Some (LoopDone response records, sent)
           | TextPart _ # _ \<Rightarrow> Some (LoopDone response records, sent)
           | FunctionCallPart function_call # _ \<Rightarrow>
               (let tool_result = handle_tool_call self function_call;
                    records' = records @ [tool_call_record function_call tool_result];
                    sent' = sent @ [FunctionResponse (call_name function_call)
                                      [(''result'', tool_result)]]
                in case send_message chat sent' of
                     Inl e \<Rightarrow> Some (LoopRaised e records', sent')
                   | Inr response' \<Rightarrow> tool_loop self chat sent' response' records')))"

definition failed_response :: "'a BaseAgent_scheme \<Rightarrow> string \<Rightarrow> AgentResponse" where
  "failed_response self msg =
     \<lparr>agent_name = name (config self), content = '''', status = FAILED,
      metadata = [], tool_calls = [], error = Some msg\<rparr>"

text \<open>
  \<open>generate_with_tools\<close> returns the response and the calls it made on the model.
  The handler of its \<open>try\<close> builds the response from \<open>str(e)\<close> alone.
\<close>

definition generate_with_tools ::
  "'a BaseAgent_scheme \<Rightarrow> string \<Rightarrow> (AgentResponse \<times> gateway_call list) option" where
  "generate_with_tools self prompt =
     (case model self of
        None \<Rightarrow> Some (failed_response self ''Model not initialized'', [])
      | Some chat \<Rightarrow>
          (case start_chat chat of
             Some e \<Rightarrow> Some (failed_response self e, [StartChat])
           | None \<Rightarrow>
               (let first = PromptMessage prompt
                              (if tools self = [] then None else Some (tools self))
                in case send_message chat [first] of
                     Inl e \<Rightarrow> Some (failed_response self e, [StartChat, SendMessage first])
                   | Inr response \<Rightarrow>
                       (case tool_loop self chat [first] response [] of
                          None \<Rightarrow> None
                        | Some (LoopRaised e records, sent) \<Rightarrow>
                            Some (failed_response self e, StartChat # map SendMessage sent)
                        | Some (LoopDone response' records, sent) \<Rightarrow>
                            (case text_attr response' of
                               TextRaises e \<Rightarrow>
                                 Some (failed_response self e, StartChat # map SendMessage sent)
                             | _ \<Rightarrow>
                                 Some (\<lparr>agent_name = name (config self),
                                        content = (case text_attr response' of
                                                     TextIs t \<Rightarrow> t
                                                   | _ \<Rightarrow> str_of_response response'),
                                        status = COMPLETED,
                                        metadata =
                                          [(''model'', VStr (model_name (config self))),
                                           (''temperature'', VFloat (temperature (config self)))],
                                        tool_calls = records,
                                        error = None\<rparr>,
                                       StartChat # map SendMessage sent))))))"

subsection \<open>run and its hooks\<close>

text \<open>
  What a method raises: an exception of class \<open>Exception\<close> (or a subclass), which
  \<open>except Exception\<close> catches, or one of the exceptions outside that class
  (\<open>SystemExit\<close>, \<open>KeyboardInterrupt\<close>, \<open>GeneratorExit\<close>), which it does not
  catch. Both carry the text \<open>str(e)\<close>.
\<close>

datatype raised = ExceptionRaised string | BaseExceptionRaised string

text \<open>
  An agent class fixes the three methods \<open>run\<close> calls on \<open>self\<close>. Each of them
  returns a value (\<open>Some (Inr v)\<close>), raises (\<open>Some (Inl x)\<close>), or never returns
  (\<open>None\<close>, which the unbounded tool loop makes possible). The methods of the
  repository's classes read \<open>self\<close> and the context and assign to neither, so a
  method is a function of \<open>self\<close> and its arguments.
\<close>

record AgentClass =
  preprocess_task :: "BaseAgent \<Rightarrow> string \<Rightarrow> pydict option \<Rightarrow> (raised + string) option"
  process_task :: "BaseAgent \<Rightarrow> string \<Rightarrow> pydict option \<Rightarrow> (raised + AgentResponse) option"
  postprocess_response :: "BaseAgent \<Rightarrow> AgentResponse \<Rightarrow> (raised + AgentResponse) option"

text \<open>
  How a call ends for its caller, when it ends: with a value, or with an exception
  that no handler of the callee caught.
\<close>

datatype 'a call_result = Returned 'a | Propagated string

text \<open>
  \<open>run\<close> gives the way the call ends and \<open>self\<close> as \<open>run\<close> leaves it. The handler
  is \<open>except Exception\<close>: an exception of a hook outside that class passes it and
  leaves \<open>run\<close> with the status still \<open>RUNNING\<close>. The task is a \<open>str\<close>, so the
  log line before the \<open>try\<close> cannot raise.
\<close>

definition run ::
  "AgentClass \<Rightarrow> BaseAgent \<Rightarrow> string \<Rightarrow> pydict option \<Rightarrow>
   (AgentResponse call_result \<times> BaseAgent) option" where
  "run cls self0 task context =
     (let self = self0\<lparr>agent_status := RUNNING\<rparr>;
          handler = (\<lambda>x. case x of
                      ExceptionRaised e \<Rightarrow>
                        Some (Returned (failed_response self (''Agent execution failed: '' @ e)),
                              self\<lparr>agent_status := FAILED\<rparr>)
                    | BaseExceptionRaised e \<Rightarrow> Some (Propagated e, self))
      in case preprocess_task cls self task context of
           None \<Rightarrow> None
         | Some (Inl x) \<Rightarrow> handler x
         | Some (Inr processed_task) \<Rightarrow>
             (case process_task cls self processed_task context of
                None \<Rightarrow> None
              | Some (Inl x) \<Rightarrow> handler x
              | Some (Inr response) \<Rightarrow>
                  (case postprocess_response cls self response of
                     None \<Rightarrow> None
                   | Some (Inl x) \<Rightarrow> handler x
                   | Some (Inr final_response) \<Rightarrow>
                       Some (Returned final_response, self\<lparr>agent_status := COMPLETED\<rparr>))))"

text \<open>The two hooks \<open>BaseAgent\<close> defines itself.\<close>

definition base_preprocess_task ::
  "BaseAgent \<Rightarrow> string \<Rightarrow> pydict option \<Rightarrow> (raised + string) option" where
  "base_preprocess_task self task context = Some (Inr task)"

definition base_postprocess_response ::
  "BaseAgent \<Rightarrow> AgentResponse \<Rightarrow> (raised + AgentResponse) option" where
  "base_postprocess_response self response = Some (Inr response)"

text \<open>
  A call of \<open>run\<close> as its caller sees it: the agent called (by name), the two
  arguments as they are at the call, and the response returned. The functions below
  that call \<open>run\<close> return the list of their calls that returned, next to their
  result; the list is an observation of the execution and has no counterpart among the
  source's variables.
\<close>

record run_call =
  callee :: string
  task_arg :: string
  context_arg :: "pydict option"
  returned :: AgentResponse

text \<open>
  \<open>collaborate\<close>, for the agents \<open>self\<close> and \<open>other_agent\<close>. The result is the
  dict literal \<open>{self.config.name: ..., other_agent.config.name: ...}\<close>, built entry
  by entry, then the calls and the two agents as the runs leave them. \<open>collaborate\<close>
  has no handler, so what leaves a \<open>run\<close> leaves \<open>collaborate\<close>. (\<open>run\<close> assigns the
  status before it reads anything, so the responses are the same when both are one
  object.)
\<close>

definition collaborate ::
  "AgentClass \<times> BaseAgent \<Rightarrow> AgentClass \<times> BaseAgent \<Rightarrow> string \<Rightarrow>
   ((string \<times> AgentResponse) list call_result \<times> run_call list \<times> BaseAgent \<times> BaseAgent)
     option" where
  "collaborate me other task =
     (case run (fst me) (snd me) task None of
        None \<Rightarrow> None
      | Some (Propagated e, self') \<Rightarrow> Some (Propagated e, [], self', snd other)
      | Some (Returned my_response, self') \<Rightarrow>
          (let collaboration_context =
                 [(''previous_agent'', VStr (name (config (snd me)))),
                  (''previous_response'', VStr (content my_response))];
               other_task = ''Build upon this previous work:'' @ [CHR 0x0A] @ content my_response
                            @ [CHR 0x0A, CHR 0x0A] @ ''Task: '' @ task;
               my_call = \<lparr>callee = name (config (snd me)), task_arg = task,
                          context_arg = None, returned = my_response\<rparr>
           in case run (fst other) (snd other) other_task (Some collaboration_context) of
                None \<Rightarrow> None
              | Some (Propagated e, other') \<Rightarrow> Some (Propagated e, [my_call], self', other')
              | Some (Returned other_response, other') \<Rightarrow>
                  Some (Returned
                          (AList.update (name (config (snd other))) other_response
                             (AList.update (name (config (snd me))) my_response [])),
                        [my_call,
                         \<lparr>callee = name (config (snd other)), task_arg = other_task,
                          context_arg = Some collaboration_context,
                          returned = other_response\<rparr>],
                        self', other')))"

section \<open>agents/orchestrator\_agent.py\<close>

text \<open>
  \<open>OrchestratorAgent\<close> extends \<open>BaseAgent\<close> by the dict of registered agents. An
  entry holds the agent object: its class and its fields. \<open>register_agent\<close> is the
  only writer of the dict besides the status updates of the agents run.
\<close>

record OrchestratorAgent = BaseAgent +
  registered_agents :: "string \<rightharpoonup> AgentClass \<times> BaseAgent"

definition register_agent ::
  "OrchestratorAgent \<Rightarrow> AgentClass \<times> BaseAgent \<Rightarrow> OrchestratorAgent" where
  "register_agent self agent =
     self\<lparr>registered_agents := (registered_agents self)(name (config (snd agent)) \<mapsto> agent)\<rparr>"

subsection \<open>\_synthesize\_results\<close>

text \<open>\<open>str(i)\<close> for the counter of \<open>enumerate(results, 1)\<close>.\<close>

fun str_of_nat :: "nat \<Rightarrow> string" where
  "str_of_nat n =
     (if n < 10 then [char_of (48 + n)]
      else str_of_nat (n div 10) @ [char_of (48 + n mod 10)])"

declare str_of_nat.simps [simp del]

definition unlines :: "string list \<Rightarrow> string" where
  "unlines ls = concat (map (\<lambda>l. l @ [CHR 0x0A]) ls)"

fun results_section :: "nat \<Rightarrow> AgentResponse list \<Rightarrow> string" where
  "results_section i [] = ''''"
| "results_section i (result # rest) =
     ''Agent '' @ str_of_nat i @ '' ('' @ agent_name result @ ''):'' @ [CHR 0x0A]
     @ content result @ [CHR 0x0A, CHR 0x0A]
     @ results_section (Suc i) rest"

definition synthesis_prompt :: "AgentResponse list \<Rightarrow> string \<Rightarrow> string" where
  "synthesis_prompt results original_task =
     ''Original Task: '' @ original_task @ [CHR 0x0A, CHR 0x0A]
     @ ''Results from specialized agents:'' @ [CHR 0x0A, CHR 0x0A]
     @ results_section 1 results
     @ unlines
        ['''',
         ''Please synthesize these results into a comprehensive, coherent response that:'',
         ''1. Combines insights from all agents'',
         ''2. Resolves any contradictions'',
         ''3. Provides a complete answer to the original task'',
         ''4. Highlights key findings and recommendations'']"

text \<open>
  \<open>_synthesize_results\<close> returns the response and the calls made on the model.
\<close>

definition synthesize_results ::
  "OrchestratorAgent \<Rightarrow> AgentResponse list \<Rightarrow> string \<Rightarrow>
   (AgentResponse \<times> gateway_call list) option" where
  "synthesize_results self results original_task =
     (if results = [] then
        Some (\<lparr>agent_name = name (config self), content = ''No results to synthesize'',
               status = COMPLETED, metadata = [], tool_calls = [], error = None\<rparr>, [])
      else
        (case generate_with_tools self (synthesis_prompt results original_task) of
           None \<Rightarrow> None
         | Some (synthesized, gateway_calls) \<Rightarrow>
             Some (synthesized\<lparr>metadata :=
                     AList.update ''num_agents'' (VInt (int (length results)))
                       (AList.update ''contributing_agents''
                          (VList (map (\<lambda>r. VStr (agent_name r)) results))
                          (metadata synthesized))\<rparr>,
                   gateway_calls)))"

subsection \<open>The workflows\<close>

text \<open>
  A workflow step is the caller's dict with the keys \<open>agent_name\<close>, \<open>task\<close> and,
  optionally, \<open>context\<close>. The context is a dict object of the caller's: the step
  holds a reference to it, and \<open>store\<close> maps every reference to the dict's present
  content, so that two steps may share one dict and an assignment to it is seen by
  the caller. A step without the key gets the fresh \<open>{}\<close> of \<open>.get("context", {})\<close>,
  which nobody else holds.
\<close>

record WorkflowStep =
  step_agent_name :: string
  step_task :: string
  step_context :: "nat option"

type_synonym store = "nat \<Rightarrow> pydict"

text \<open>
  The loop of \<open>execute_sequential_workflow\<close>: \<open>i\<close> is the index of
  \<open>enumerate(tasks)\<close>, \<open>results\<close> the list built so far. Each call of \<open>run\<close> that
  returns is recorded with its step index. The loop has no handler: an exception that
  leaves a \<open>run\<close> ends the workflow, with the orchestrator and the dicts as they are
  then.
\<close>

fun sequential_loop ::
  "OrchestratorAgent \<Rightarrow> store \<Rightarrow> nat \<Rightarrow> WorkflowStep list \<Rightarrow> AgentResponse list \<Rightarrow>
   (nat \<times> run_call) list \<Rightarrow>
   (AgentResponse list call_result \<times> (nat \<times> run_call) list \<times> OrchestratorAgent \<times> store)
     option" where
  "sequential_loop self store i [] results calls = Some (Returned results, calls, self, store)"
| "sequential_loop self store i (task_info # rest) results calls =
     (case registered_agents self (step_agent_name task_info) of
        None \<Rightarrow> sequential_loop self store (Suc i) rest results calls
      | Some (cls, agent) \<Rightarrow>
          (let previous = VList (map (\<lambda>r. VStr (content r)) results);
               context0 = (case step_context task_info of None \<Rightarrow> [] | Some ref \<Rightarrow> store ref);
               context = (if 0 < i then AList.update ''previous_results'' previous context0
                          else context0);
               store' = (case step_context task_info of
                           None \<Rightarrow> store
                         | Some ref \<Rightarrow> store(ref := context))
           in case run cls agent (step_task task_info) (Some context) of
                None \<Rightarrow> None
              | Some (Propagated e, agent') \<Rightarrow>
                  Some (Propagated e, calls,
                        self\<lparr>registered_agents :=
                          (registered_agents self)(step_agent_name task_info \<mapsto> (cls, agent'))\<rparr>,
                        store')
              | Some (Returned response, agent') \<Rightarrow>
                  sequential_loop
                    (self\<lparr>registered_agents :=
                       (registered_agents self)(step_agent_name task_info \<mapsto> (cls, agent'))\<rparr>)
                    store' (Suc i) rest (results @ [response])
                    (calls @ [(i, \<lparr>callee = step_agent_name task_info,
                                    task_arg = step_task task_info,
                                    context_arg = Some context,
                                    returned = response\<rparr>)])))"

definition execute_sequential_workflow ::
  "OrchestratorAgent \<Rightarrow> store \<Rightarrow> WorkflowStep list \<Rightarrow>
   (AgentResponse list call_result \<times> (nat \<times> run_call) list \<times> OrchestratorAgent \<times> store)
     option" where
  "execute_sequential_workflow self store tasks = sequential_loop self store 0 tasks [] []"

text \<open>The loop of \<open>execute_parallel_workflow\<close>, which runs the steps one after another.\<close>

fun parallel_loop ::
  "OrchestratorAgent \<Rightarrow> store \<Rightarrow> WorkflowStep list \<Rightarrow> AgentResponse list \<Rightarrow> run_call list \<Rightarrow>
   (AgentResponse list call_result \<times> run_call list \<times> OrchestratorAgent) option" where
  "parallel_loop self store [] results calls = Some (Returned results, calls, self)"
| "parallel_loop self store (task_info # rest) results calls =
     (case registered_agents self (step_agent_name task_info) of
        None \<Rightarrow> parallel_loop self store rest results calls
      | Some (cls, agent) \<Rightarrow>
          (let context = (case step_context task_info of None \<Rightarrow> [] | Some ref \<Rightarrow> store ref)
           in case run cls agent (step_task task_info) (Some context) of
                None \<Rightarrow> None
              | Some (Propagated e, agent') \<Rightarrow>
                  Some (Propagated e, calls,
                        self\<lparr>registered_agents :=
                          (registered_agents self)(step_agent_name task_info \<mapsto> (cls, agent'))\<rparr>)
              | Some (Returned response, agent') \<Rightarrow>
                  parallel_loop
                    (self\<lparr>registered_agents :=
                       (registered_agents self)(step_agent_name task_info \<mapsto> (cls, agent'))\<rparr>)
                    store rest (results @ [response])
                    (calls @ [\<lparr>callee = step_agent_name task_info,
                               task_arg = step_task task_info,
                               context_arg = Some context,
                               returned = response\<rparr>])))"

definition execute_parallel_workflow ::
  "OrchestratorAgent \<Rightarrow> store \<Rightarrow> WorkflowStep list \<Rightarrow>
   (AgentResponse list call_result \<times> run_call list \<times> OrchestratorAgent) option" where
  "execute_parallel_workflow self store tasks = parallel_loop self store tasks [] []"

section \<open>agents/researcher\_agent.py\<close>

text \<open>
  \<open>ResearcherAgent\<close> overrides \<open>process_task\<close> alone: it formats a prompt and hands it
  to \<open>generate_with_tools\<close>. The f-string renders a context value with Python's
  \<open>str\<close>, which is the parameter \<open>str_of\<close>. An empty context is falsy and adds no
  lines.
\<close>

definition format_research_prompt ::
  "(pyval \<Rightarrow> string) \<Rightarrow> string \<Rightarrow> pydict option \<Rightarrow> string" where
  "format_research_prompt str_of task context =
     ''Research Task: '' @ task @ [CHR 0x0A, CHR 0x0A]
     @ (case context of
          None \<Rightarrow> ''''
        | Some [] \<Rightarrow> ''''
        | Some items \<Rightarrow>
            ''Context:'' @ [CHR 0x0A]
            @ concat (map (\<lambda>(key, v). ''- '' @ key @ '': '' @ str_of v @ [CHR 0x0A]) items)
            @ [CHR 0x0A])
     @ unlines
        ['''',
         ''Please conduct thorough research on this topic:'',
         '''',
         ''1. Search for relevant and recent information'',
         ''2. Identify key facts, trends, and insights'',
         ''3. Verify information from multiple sources when possible'',
         ''4. Organize findings in a clear, structured format'',
         ''5. Cite sources where applicable'',
         '''',
         ''Provide a comprehensive research report.'']"

definition ResearcherAgent :: "(pyval \<Rightarrow> string) \<Rightarrow> AgentClass" where
  "ResearcherAgent str_of =
     \<lparr>preprocess_task = base_preprocess_task,
      process_task = (\<lambda>self task context.
         map_option (\<lambda>(response, gateway_calls). Inr response)
           (generate_with_tools self (format_research_prompt str_of task context))),
      postprocess_response = base_postprocess_response\<rparr>"

section \<open>tests/test\_agents.py: the test class, and test doubles\<close>

text \<open>\<open>TestAgent\<close>, the concrete class of the repository's unit tests.\<close>

definition TestAgent :: AgentClass where
  "TestAgent =
     \<lparr>preprocess_task = base_preprocess_task,
      process_task = (\<lambda>self task context.
         Some (Inr \<lparr>agent_name = name (config self), content = ''Processed: '' @ task,
                    status = COMPLETED, metadata = [], tool_calls = [], error = None\<rparr>)),
      postprocess_response = base_postprocess_response\<rparr>"

text \<open>
  A class whose \<open>process_task\<close> raises \<open>ValueError("boom")\<close>, and one whose
  \<open>process_task\<close> calls \<open>sys.exit("bye")\<close> and so raises \<open>SystemExit\<close>.
\<close>

definition RaisingAgent :: AgentClass where
  "RaisingAgent =
     \<lparr>preprocess_task = base_preprocess_task,
      process_task = (\<lambda>self task context. Some (Inl (ExceptionRaised ''boom''))),
      postprocess_response = base_postprocess_response\<rparr>"

definition ExitingAgent :: AgentClass where
  "ExitingAgent =
     \<lparr>preprocess_task = base_preprocess_task,
      process_task = (\<lambda>self task context. Some (Inl (BaseExceptionRaised ''bye''))),
      postprocess_response = base_postprocess_response\<rparr>"

text \<open>
  A newly constructed agent, as \<open>__init__\<close> leaves it: idle, no tools, and the model
  the initialisation produced (\<open>None\<close> without a project id). The orchestrator is
  built with \<open>AgentConfig(name="OrchestratorAgent")\<close>.
\<close>

definition new_agent :: "string \<Rightarrow> GenerativeModel option \<Rightarrow> BaseAgent" where
  "new_agent agent_name' m =
     \<lparr>config = default_config agent_name',
      agent_status = IDLE, tools = [], tool_functions = [], model = m\<rparr>"

definition new_orchestrator :: OrchestratorAgent where
  "new_orchestrator =
     \<lparr>config = default_config ''OrchestratorAgent'',
      agent_status = IDLE, tools = [], tool_functions = [], model = None,
      registered_agents = Map.empty\<rparr>"

text \<open>A sequence of \<open>add_tool\<close> calls: name, description, function, parameters.\<close>

definition add_tools ::
  "(string \<Rightarrow> string \<Rightarrow> pydict \<Rightarrow> string option) \<Rightarrow> BaseAgent \<Rightarrow>
   (string \<times> string \<times> tool_function \<times> pydict) list \<Rightarrow> BaseAgent" where
  "add_tools schema_error self registrations =
     foldl (\<lambda>agent (tool_name, tool_description, f, ps).
              add_tool schema_error agent tool_name tool_description f ps)
       self registrations"

definition echo :: tool_function where
  "echo function_args = Inr (VDict function_args)"

definition shout :: tool_function where
  "shout function_args = Inr (VStr ''HEY'')"

text \<open>
  A model stub that asks for the tool \<open>echo\<close> with \<open>{x: 5}\<close> and, given the tool's
  result, answers \<open>done\<close>; and one that raises on the second message instead.
\<close>

definition echo_call :: FunctionCall where
  "echo_call = FunctionCall ''echo'' [(''x'', VInt 5)]"

definition ask_echo :: GenerationResponse where
  "ask_echo = \<lparr>candidates = [[FunctionCallPart echo_call]], text_attr = NoTextAttribute,
               str_of_response = ''function_call: echo''\<rparr>"

definition answer_done :: GenerationResponse where
  "answer_done = \<lparr>candidates = [[TextPart ''done'']], text_attr = TextIs ''done'',
                  str_of_response = ''text: done''\<rparr>"

definition stub_model :: GenerativeModel where
  "stub_model =
     \<lparr>start_chat = None,
      send_message = (\<lambda>sent. if length sent = 1 then Inr ask_echo else Inr answer_done)\<rparr>"

definition failing_model :: GenerativeModel where
  "failing_model =
     \<lparr>start_chat = None,
      send_message = (\<lambda>sent. if length sent = 1 then Inr ask_echo
                             else Inl ''503 Service Unavailable'')\<rparr>"

text \<open>A model that cannot be reached: every message sent raises.\<close>

definition unreachable_model :: GenerativeModel where
  "unreachable_model =
     \<lparr>start_chat = None, send_message = (\<lambda>sent. Inl ''Connection refused'')\<rparr>"

text \<open>
  An orchestrator with two registered \<open>TestAgent\<close>s, and a workflow for it: two
  steps with a context dict each (the dicts at the references 0 and 1).
\<close>

definition two_agents :: OrchestratorAgent where
  "two_agents =
     register_agent
       (register_agent new_orchestrator (TestAgent, new_agent ''Agent1'' None))
       (TestAgent, new_agent ''Agent2'' None)"

definition two_steps :: "WorkflowStep list" where
  "two_steps =
     [\<lparr>step_agent_name = ''Agent1'', step_task = ''Test task 1'', step_context = Some 0\<rparr>,
      \<lparr>step_agent_name = ''Agent2'', step_task = ''Test task 2'', step_context = Some 1\<rparr>]"

definition empty_dicts :: store where
  "empty_dicts ref = []"

text \<open>
  An orchestrator with the agents of the demo, as they are without a project id: a
  \<open>ResearcherAgent\<close> whose model is \<open>None\<close>, and a \<open>TestAgent\<close>.
\<close>

definition researcher_and_tester :: OrchestratorAgent where
  "researcher_and_tester =
     register_agent
       (register_agent new_orchestrator
          (ResearcherAgent (\<lambda>v. ''value''), new_agent ''ResearcherAgent'' None))
       (TestAgent, new_agent ''Agent1'' None)"

definition steps_with_ghost :: "WorkflowStep list" where
  "steps_with_ghost =
     [\<lparr>step_agent_name = ''ResearcherAgent'', step_task = ''Research'', step_context = Some 0\<rparr>,
      \<lparr>step_agent_name = ''Ghost'', step_task = ''Haunt'', step_context = Some 1\<rparr>,
      \<lparr>step_agent_name = ''Agent1'', step_task = ''Test task'', step_context = None\<rparr>]"

text \<open>
  \<open>task_info.get("context", {})\<close> read at a given moment: the content of the step's
  dict, empty when the step has none.
\<close>

definition task_context :: "store \<Rightarrow> WorkflowStep \<Rightarrow> pydict" where
  "task_context store task_info =
     (case step_context task_info of None \<Rightarrow> [] | Some ref \<Rightarrow> store ref)"

text \<open>What the caller finds in the dict at \<open>ref\<close> once a sequential workflow has ended.\<close>

definition dict_after ::
  "('a \<times> (nat \<times> run_call) list \<times> OrchestratorAgent \<times> store) option \<Rightarrow>
   nat \<Rightarrow> pydict option" where
  "dict_after outcome ref = map_option (\<lambda>(results, calls, self', store'). store' ref) outcome"

section \<open>Properties of the conversation loop\<close>

lemmas doubles =
  new_agent_def default_config_def echo_def echo_call_def ask_echo_def answer_done_def
  stub_model_def failing_model_def unreachable_model_def any_schema_def add_tool_def

text \<open>
  One turn of the loop in which the model raises: the loop is left with the
  exception's text, and the record of the tool call made in that turn is in the local
  list.
\<close>

lemma tool_loop_model_raises:
  assumes "candidates response = (FunctionCallPart function_call # rest) # others"
    and "send_message chat
           (sent @ [FunctionResponse (call_name function_call)
                      [(''result'', handle_tool_call self function_call)]]) = Inl e"
  shows "tool_loop self chat sent response records =
           Some (LoopRaised e
                   (records @ [tool_call_record function_call
                                 (handle_tool_call self function_call)]),
                 sent @ [FunctionResponse (call_name function_call)
                           [(''result'', handle_tool_call self function_call)]])"
  by (subst tool_loop.simps) (simp add: assms Let_def)

text \<open>
  C1, as the code has it. When a call on the model raises, with text \<open>e\<close>, be it
  \<open>start_chat\<close>, the first \<open>send_message\<close> or a \<open>send_message\<close> inside the tool loop
  (more generally: when an exception with text \<open>e\<close> leaves the loop), the result of
  \<open>generate_with_tools\<close> has status \<open>FAILED\<close>, empty content and the error \<open>e\<close>
  itself, unchanged. Its \<open>tool_calls\<close> list is empty whatever records the loop had
  built: the handler does not attach them.
\<close>

theorem generate_with_tools_gateway_failure:
  assumes "model self = Some chat"
    and "start_chat chat = Some e
       \<or> (start_chat chat = None
          \<and> send_message chat
               [PromptMessage prompt (if tools self = [] then None else Some (tools self))]
             = Inl e)
       \<or> (start_chat chat = None
          \<and> (\<exists>response records sent.
                send_message chat
                  [PromptMessage prompt (if tools self = [] then None else Some (tools self))]
                  = Inr response
                \<and> tool_loop self chat
                    [PromptMessage prompt (if tools self = [] then None else Some (tools self))]
                    response [] = Some (LoopRaised e records, sent)))"
  shows "map_option fst (generate_with_tools self prompt) =
           Some \<lparr>agent_name = name (config self), content = '''', status = FAILED,
                 metadata = [], tool_calls = [], error = Some e\<rparr>"
  using assms by (auto simp: generate_with_tools_def failed_response_def)

text \<open>
  An agent with the tool \<open>echo\<close>, on a model that asks for \<open>echo\<close> and then raises;
  and the same agent on a model that cannot be reached.
\<close>

theorem generate_with_tools_gateway_failure_witness:
  "map_option fst
     (generate_with_tools
        (add_tool any_schema (new_agent ''TestAgent'' (Some failing_model))
           ''echo'' ''Echo the arguments'' echo [])
        ''hi'')
   = Some \<lparr>agent_name = ''TestAgent'', content = '''', status = FAILED,
           metadata = [], tool_calls = [], error = Some ''503 Service Unavailable''\<rparr>
   \<and> map_option fst
     (generate_with_tools
        (add_tool any_schema (new_agent ''TestAgent'' (Some unreachable_model))
           ''echo'' ''Echo the arguments'' echo [])
        ''hi'')
   = Some \<lparr>agent_name = ''TestAgent'', content = '''', status = FAILED,
           metadata = [], tool_calls = [], error = Some ''Connection refused''\<rparr>"
proof -
  let ?agent = "add_tool any_schema (new_agent ''TestAgent'' (Some failing_model))
                  ''echo'' ''Echo the arguments'' echo []"
  let ?first = "PromptMessage ''hi'' (if tools ?agent = [] then None else Some (tools ?agent))"
  let ?sent = "[PromptMessage ''hi''
                  (Some [Tool [FunctionDeclaration ''echo'' ''Echo the arguments'' []]]),
                FunctionResponse ''echo'' [(''result'', VDict [(''x'', VInt 5)])]]"
  have m: "model ?agent = Some failing_model"
    by (simp add: doubles)
  have f: "send_message failing_model [?first] = Inr ask_echo"
    by (simp add: doubles)
  have l: "tool_loop ?agent failing_model [?first] ask_echo []
             = Some (LoopRaised ''503 Service Unavailable''
                       [[(''function'', VStr ''echo''), (''args'', VDict [(''x'', VInt 5)]),
                         (''result'', VDict [(''x'', VInt 5)])]], ?sent)"
    by (simp add: doubles tool_loop.simps handle_tool_call_def tool_call_record_def Let_def)
  have in_loop: "start_chat failing_model = Some ''503 Service Unavailable''
       \<or> (start_chat failing_model = None
          \<and> send_message failing_model [?first] = Inl ''503 Service Unavailable'')
       \<or> (start_chat failing_model = None
          \<and> (\<exists>response records sent.
                send_message failing_model [?first] = Inr response
                \<and> tool_loop ?agent failing_model [?first] response []
                    = Some (LoopRaised ''503 Service Unavailable'' records, sent)))"
    using f l by (simp add: failing_model_def)
  let ?agent' = "add_tool any_schema (new_agent ''TestAgent'' (Some unreachable_model))
                  ''echo'' ''Echo the arguments'' echo []"
  let ?first' = "PromptMessage ''hi'' (if tools ?agent' = [] then None else Some (tools ?agent'))"
  have m': "model ?agent' = Some unreachable_model"
    by (simp add: doubles)
  have first_send: "start_chat unreachable_model = Some ''Connection refused''
       \<or> (start_chat unreachable_model = None
          \<and> send_message unreachable_model [?first'] = Inl ''Connection refused'')
       \<or> (start_chat unreachable_model = None
          \<and> (\<exists>response records sent.
                send_message unreachable_model [?first'] = Inr response
                \<and> tool_loop ?agent' unreachable_model [?first'] response []
                    = Some (LoopRaised ''Connection refused'' records, sent)))"
    by (simp add: unreachable_model_def)
  from generate_with_tools_gateway_failure [OF m in_loop]
    generate_with_tools_gateway_failure [OF m' first_send]
  show ?thesis by (simp add: doubles)
qed

text \<open>
  Against C1 as stated: on that run the loop has built one record when the model
  raises, and the result returned carries none.
\<close>

theorem generate_with_tools_drops_records:
  "tool_loop (add_tool any_schema (new_agent ''TestAgent'' (Some failing_model))
                ''echo'' ''Echo the arguments'' echo [])
     failing_model
     [PromptMessage ''hi''
        (Some [Tool [FunctionDeclaration ''echo'' ''Echo the arguments'' []]])]
     ask_echo []
   = Some (LoopRaised ''503 Service Unavailable''
            [[(''function'', VStr ''echo''), (''args'', VDict [(''x'', VInt 5)]),
              (''result'', VDict [(''x'', VInt 5)])]],
           [PromptMessage ''hi''
              (Some [Tool [FunctionDeclaration ''echo'' ''Echo the arguments'' []]]),
            FunctionResponse ''echo'' [(''result'', VDict [(''x'', VInt 5)])]])
   \<and> map_option fst
        (generate_with_tools
           (add_tool any_schema (new_agent ''TestAgent'' (Some failing_model))
              ''echo'' ''Echo the arguments'' echo [])
           ''hi'')
     = Some \<lparr>agent_name = ''TestAgent'', content = '''', status = FAILED, metadata = [],
             tool_calls = [], error = Some ''503 Service Unavailable''\<rparr>"
  by (simp add: doubles generate_with_tools_def failed_response_def tool_loop.simps
      handle_tool_call_def tool_call_record_def Let_def)

text \<open>
  C2. When the response asks for a tool whose name is not a key of \<open>tool_functions\<close>,
  \<open>_handle_tool_call\<close> returns \<open>{error: "Tool not found: <name>"}\<close> instead of raising,
  and the loop appends the record of the call (name, arguments, that result), sends
  the result to the model as a function response, and goes on with the model's
  reply. Only a raise of the model on that message ends the loop.
\<close>

theorem tool_loop_unknown_tool:
  assumes "candidates response = (FunctionCallPart function_call # rest) # others"
    and "map_of (tool_functions self) (call_name function_call) = None"
  shows "handle_tool_call self function_call =
           VDict [(''error'', VStr (''Tool not found: '' @ call_name function_call))]
       \<and> tool_loop self chat sent response records =
          (let tool_result =
                 VDict [(''error'', VStr (''Tool not found: '' @ call_name function_call))];
               records' = records @ [[(''function'', VStr (call_name function_call)),
                                      (''args'', VDict (args function_call)),
                                      (''result'', tool_result)]];
               sent' = sent @ [FunctionResponse (call_name function_call)
                                 [(''result'', tool_result)]]
           in case send_message chat sent' of
                Inl e \<Rightarrow> Some (LoopRaised e records', sent')
              | Inr response' \<Rightarrow> tool_loop self chat sent' response' records')"
proof -
  have not_found: "handle_tool_call self function_call =
           VDict [(''error'', VStr (''Tool not found: '' @ call_name function_call))]"
    using assms(2) by (simp add: handle_tool_call_def)
  have "tool_loop self chat sent response records =
          (let tool_result = handle_tool_call self function_call;
               records' = records @ [tool_call_record function_call tool_result];
               sent' = sent @ [FunctionResponse (call_name function_call)
                                 [(''result'', tool_result)]]
           in case send_message chat sent' of
                Inl e \<Rightarrow> Some (LoopRaised e records', sent')
              | Inr response' \<Rightarrow> tool_loop self chat sent' response' records')"
    by (subst tool_loop.simps) (simp add: assms(1))
  then show ?thesis
    using not_found by (simp add: tool_call_record_def)
qed

text \<open>An agent without tools, asked for \<open>echo\<close>: one error record, then the answer.\<close>

theorem tool_loop_unknown_tool_witness:
  "tool_loop (new_agent ''TestAgent'' (Some stub_model)) stub_model
     [PromptMessage ''hi'' None] ask_echo []
   = Some (LoopDone answer_done
            [[(''function'', VStr ''echo''), (''args'', VDict [(''x'', VInt 5)]),
              (''result'', VDict [(''error'', VStr ''Tool not found: echo'')])]],
           [PromptMessage ''hi'' None,
            FunctionResponse ''echo''
              [(''result'', VDict [(''error'', VStr ''Tool not found: echo'')])]])"
proof -
  have asked: "candidates ask_echo = (FunctionCallPart echo_call # []) # []"
    by (simp add: ask_echo_def)
  have unknown: "map_of (tool_functions (new_agent ''TestAgent'' (Some stub_model)))
                   (call_name echo_call) = None"
    by (simp add: new_agent_def default_config_def)
  have answered: "tool_loop (new_agent ''TestAgent'' (Some stub_model)) stub_model sent
                    answer_done records = Some (LoopDone answer_done records, sent)"
    for sent records
    by (subst tool_loop.simps) (simp add: answer_done_def)
  have reply: "send_message stub_model
                 [PromptMessage ''hi'' None,
                  FunctionResponse ''echo''
                    [(''result'', VDict [(''error'', VStr ''Tool not found: echo'')])]]
               = Inr answer_done"
    by (simp add: stub_model_def)
  from tool_loop_unknown_tool [OF asked unknown, of stub_model "[PromptMessage ''hi'' None]" "[]"]
  show ?thesis
    by (simp add: answered reply Let_def echo_call_def)
qed

section \<open>Properties of the tool registry\<close>

lemma update_new_key:
  "k \<notin> fst ` set al \<Longrightarrow> AList.update k v al = al @ [(k, v)]"
  by (induction al) auto

lemma add_tools_distinct:
  assumes "distinct (map fst (tool_functions self) @ map fst registrations)"
    and "\<forall>r\<in>set registrations. case r of (n, d, f, ps) \<Rightarrow> schema_error n d ps = None"
  shows "tool_functions (add_tools schema_error self registrations)
           = tool_functions self @ map (\<lambda>(n, d, f, ps). (n, f)) registrations
       \<and> tools (add_tools schema_error self registrations)
           = tools self @ map (\<lambda>(n, d, f, ps). Tool [FunctionDeclaration n d ps]) registrations"
  using assms
proof (induction registrations arbitrary: self)
  case Nil
  then show ?case by (simp add: add_tools_def)
next
  case (Cons r registrations)
  obtain n d f ps where r: "r = (n, d, f, ps)" by (cases r) auto
  from Cons.prems(2) r have accepted: "schema_error n d ps = None" by auto
  let ?self = "add_tool schema_error self n d f ps"
  have "n \<notin> fst ` set (tool_functions self)"
    using Cons.prems(1) r by auto
  then have fns: "tool_functions ?self = tool_functions self @ [(n, f)]"
    using accepted by (simp add: add_tool_def update_new_key)
  have tls: "tools ?self = tools self @ [Tool [FunctionDeclaration n d ps]]"
    using accepted by (simp add: add_tool_def)
  have "distinct (map fst (tool_functions ?self) @ map fst registrations)"
    using Cons.prems(1) r fns by auto
  moreover have "\<forall>r\<in>set registrations.
      case r of (n, d, f, ps) \<Rightarrow> schema_error n d ps = None"
    using Cons.prems(2) by simp
  ultimately have IH: "tool_functions (add_tools schema_error ?self registrations)
           = tool_functions ?self @ map (\<lambda>(n, d, f, ps). (n, f)) registrations
       \<and> tools (add_tools schema_error ?self registrations)
           = tools ?self @ map (\<lambda>(n, d, f, ps). Tool [FunctionDeclaration n d ps]) registrations"
    by (rule Cons.IH)
  have unfold: "add_tools schema_error self (r # registrations)
                  = add_tools schema_error ?self registrations"
    by (simp add: add_tools_def r)
  show ?case
    unfolding unfold using IH fns tls r by simp
qed

lemma one_registration_per_name:
  assumes "distinct (map fst registrations)" and "k \<in> set (map fst registrations)"
  shows "length (filter (\<lambda>r. fst r = k) registrations) = 1"
  using assms
proof (induction registrations)
  case Nil
  then show ?case by simp
next
  case (Cons r registrations)
  show ?case
  proof (cases "fst r = k")
    case True
    from Cons.prems(1) have "fst r \<notin> fst ` set registrations"
      by simp
    with True have "\<forall>q\<in>set registrations. fst q \<noteq> k"
      by (metis imageI)
    then have "filter (\<lambda>r. fst r = k) registrations = []"
      by (simp add: filter_empty_conv)
    with True show ?thesis by simp
  next
    case False
    with Cons show ?thesis by simp
  qed
qed

text \<open>
  C7, as the code has it. On an agent without tools, \<open>registrations\<close> is a sequence
  of N \<open>add_tool\<close> calls with pairwise distinct names, each accepted by the
  constructors of the client library; \<open>after\<close> is the agent then. \<open>tool_functions\<close>
  holds the N functions under their names and \<open>tools\<close> the N schemas, in the order
  of the calls. A further accepted call under one of these names (\<open>again\<close>) replaces
  the function stored for the name and leaves \<open>tool_functions\<close> at N entries under
  the same names; it appends one more schema to \<open>tools\<close>, which then has N + 1, two
  of them declaring that name.
\<close>

theorem add_tool_registry:
  assumes "tools self = []" and "tool_functions self = []"
    and "distinct (map fst registrations)"
    and "\<forall>r\<in>set registrations. case r of (n, d, f, ps) \<Rightarrow> schema_error n d ps = None"
    and "after = add_tools schema_error self registrations"
    and "tool_name \<in> set (map fst registrations)"
    and "schema_error tool_name tool_description ps' = None"
    and "again = add_tool schema_error after tool_name tool_description f' ps'"
  shows "tool_functions after = map (\<lambda>(n, d, f, ps). (n, f)) registrations
       \<and> tools after = map (\<lambda>(n, d, f, ps). Tool [FunctionDeclaration n d ps]) registrations
       \<and> length (tool_functions after) = length registrations
       \<and> length (tools after) = length registrations
       \<and> tool_functions again = AList.update tool_name f' (tool_functions after)
       \<and> length (tool_functions again) = length registrations
       \<and> map fst (tool_functions again) = map fst registrations
       \<and> map_of (tool_functions again) tool_name = Some f'
       \<and> tools again = tools after @ [Tool [FunctionDeclaration tool_name tool_description ps']]
       \<and> length (tools again) = Suc (length registrations)
       \<and> length (filter (\<lambda>t. tool_name \<in> decl_name ` set (function_declarations t))
                   (tools again)) = 2"
proof -
  have "tool_functions after
          = tool_functions self @ map (\<lambda>(n, d, f, ps). (n, f)) registrations
       \<and> tools after
          = tools self @ map (\<lambda>(n, d, f, ps). Tool [FunctionDeclaration n d ps]) registrations"
    unfolding assms(5) using assms(2,3,4) by (intro add_tools_distinct) simp_all
  then have fns: "tool_functions after = map (\<lambda>(n, d, f, ps). (n, f)) registrations"
    and tls: "tools after
                = map (\<lambda>(n, d, f, ps). Tool [FunctionDeclaration n d ps]) registrations"
    using assms(1,2) by simp_all
  have keys: "map fst (tool_functions after) = map fst registrations"
    unfolding fns by (induction registrations) auto
  have again_fns: "tool_functions again = AList.update tool_name f' (tool_functions after)"
    and again_tools: "tools again
                = tools after @ [Tool [FunctionDeclaration tool_name tool_description ps']]"
    unfolding assms(8) using assms(7) by (simp_all add: add_tool_def)
  have keys_again: "map fst (tool_functions again) = map fst registrations"
    using assms(6) keys by (simp add: again_fns update_keys)
  have len_again: "length (tool_functions again) = length registrations"
    using arg_cong [OF keys_again, of length] by simp
  have stored: "map_of (tool_functions again) tool_name = Some f'"
    by (simp add: again_fns update_conv')
  have "filter (\<lambda>t. tool_name \<in> decl_name ` set (function_declarations t)) (tools after)
          = map (\<lambda>(n, d, f, ps). Tool [FunctionDeclaration n d ps])
              (filter (\<lambda>r. fst r = tool_name) registrations)"
    unfolding tls by (induction registrations) auto
  then have "length (filter (\<lambda>t. tool_name \<in> decl_name ` set (function_declarations t))
                       (tools after)) = 1"
    using one_registration_per_name [OF assms(3,6)] by simp
  then have twice: "length (filter (\<lambda>t. tool_name \<in> decl_name ` set (function_declarations t))
                       (tools again)) = 2"
    by (simp add: again_tools)
  show ?thesis
    using fns tls again_fns again_tools keys_again len_again stored twice by simp
qed

text \<open>Two tools, then \<open>echo\<close> registered again with another function.\<close>

theorem add_tool_registry_witness:
  "tool_functions (add_tools any_schema (new_agent ''TestAgent'' None)
       [(''echo'', ''Echo the arguments'', echo, []), (''shout'', ''Shout'', shout, [])])
     = [(''echo'', echo), (''shout'', shout)]
   \<and> tools (add_tools any_schema (new_agent ''TestAgent'' None)
       [(''echo'', ''Echo the arguments'', echo, []), (''shout'', ''Shout'', shout, [])])
     = [Tool [FunctionDeclaration ''echo'' ''Echo the arguments'' []],
        Tool [FunctionDeclaration ''shout'' ''Shout'' []]]
   \<and> tool_functions (add_tool any_schema
       (add_tools any_schema (new_agent ''TestAgent'' None)
          [(''echo'', ''Echo the arguments'', echo, []), (''shout'', ''Shout'', shout, [])])
       ''echo'' ''Shout instead'' shout [])
     = [(''echo'', shout), (''shout'', shout)]
   \<and> tools (add_tool any_schema
       (add_tools any_schema (new_agent ''TestAgent'' None)
          [(''echo'', ''Echo the arguments'', echo, []), (''shout'', ''Shout'', shout, [])])
       ''echo'' ''Shout instead'' shout [])
     = [Tool [FunctionDeclaration ''echo'' ''Echo the arguments'' []],
        Tool [FunctionDeclaration ''shout'' ''Shout'' []],
        Tool [FunctionDeclaration ''echo'' ''Shout instead'' []]]"
proof -
  let ?registrations =
    "[(''echo'', ''Echo the arguments'', echo, []), (''shout'', ''Shout'', shout, [])]"
  have no_tools: "tools (new_agent ''TestAgent'' None) = []"
    and no_functions: "tool_functions (new_agent ''TestAgent'' None) = []"
    by (simp_all add: new_agent_def)
  have names: "distinct (map fst ?registrations)"
    by simp
  have accepted: "\<forall>r\<in>set ?registrations.
      case r of (n, d, f, ps) \<Rightarrow> any_schema n d ps = None"
    by (simp add: any_schema_def)
  have registered: "''echo'' \<in> set (map fst ?registrations)"
    by simp
  have accepted_again: "any_schema ''echo'' ''Shout instead'' [] = None"
    by (simp add: any_schema_def)
  from add_tool_registry
    [OF no_tools no_functions names accepted refl registered accepted_again refl,
     of shout]
  show ?thesis by simp
qed

text \<open>
  Against C7 as stated: after two registrations under the name \<open>echo\<close> the list of
  schemas holds two declarations of that name, next to a single function.
\<close>

theorem add_tool_twice_two_declarations:
  "tools (add_tool any_schema
            (add_tool any_schema (new_agent ''TestAgent'' None)
               ''echo'' ''Echo the arguments'' echo [])
            ''echo'' ''Shout instead'' shout [])
     = [Tool [FunctionDeclaration ''echo'' ''Echo the arguments'' []],
        Tool [FunctionDeclaration ''echo'' ''Shout instead'' []]]
   \<and> map fst (tool_functions (add_tool any_schema
            (add_tool any_schema (new_agent ''TestAgent'' None)
               ''echo'' ''Echo the arguments'' echo [])
            ''echo'' ''Shout instead'' shout [])) = [''echo'']"
  by (simp add: new_agent_def any_schema_def add_tool_def)

section \<open>Properties of run and collaborate\<close>

lemmas test_agent_run =
  run_def TestAgent_def base_preprocess_task_def base_postprocess_response_def new_agent_def
  default_config_def Let_def

text \<open>
  C3, as the code has it. Let one of \<open>preprocess_task\<close>, \<open>process_task\<close> and
  \<open>postprocess_response\<close> raise, the hooks before it having returned. If the
  exception is of class \<open>Exception\<close>, with text \<open>e\<close>, \<open>run\<close> returns: a response with
  status \<open>FAILED\<close> whose error is \<open>e\<close> after the prefix \<open>Agent execution failed: \<close>,
  and the agent's status is \<open>FAILED\<close>. If it is outside that class (\<open>SystemExit\<close>,
  \<open>KeyboardInterrupt\<close>, \<open>GeneratorExit\<close>), it leaves \<open>run\<close> to the caller and the
  agent's status stays \<open>RUNNING\<close>.
\<close>

theorem run_catches_hook_exception:
  assumes "preprocess_task cls (self\<lparr>agent_status := RUNNING\<rparr>) task context = Some (Inl x)
     \<or> (\<exists>processed_task.
          preprocess_task cls (self\<lparr>agent_status := RUNNING\<rparr>) task context
            = Some (Inr processed_task)
          \<and> (process_task cls (self\<lparr>agent_status := RUNNING\<rparr>) processed_task context
               = Some (Inl x)
             \<or> (\<exists>response.
                  process_task cls (self\<lparr>agent_status := RUNNING\<rparr>) processed_task context
                    = Some (Inr response)
                  \<and> postprocess_response cls (self\<lparr>agent_status := RUNNING\<rparr>) response
                    = Some (Inl x))))"
  shows "run cls self task context =
           (case x of
              ExceptionRaised e \<Rightarrow>
                Some (Returned \<lparr>agent_name = name (config self), content = '''',
                                status = FAILED, metadata = [], tool_calls = [],
                                error = Some (''Agent execution failed: '' @ e)\<rparr>,
                      self\<lparr>agent_status := FAILED\<rparr>)
            | BaseExceptionRaised e \<Rightarrow>
                Some (Propagated e, self\<lparr>agent_status := RUNNING\<rparr>))"
  using assms by (auto simp: run_def failed_response_def Let_def split: raised.splits)

text \<open>
  A \<open>process_task\<close> that raises \<open>ValueError("boom")\<close>, and one that raises
  \<open>SystemExit\<close>.
\<close>

theorem run_catches_hook_exception_witness:
  "run RaisingAgent (new_agent ''TestAgent'' None) ''test task'' None =
     Some (Returned \<lparr>agent_name = ''TestAgent'', content = '''', status = FAILED,
                     metadata = [], tool_calls = [],
                     error = Some ''Agent execution failed: boom''\<rparr>,
           (new_agent ''TestAgent'' None)\<lparr>agent_status := FAILED\<rparr>)
   \<and> run ExitingAgent (new_agent ''TestAgent'' None) ''test task'' None =
     Some (Propagated ''bye'', (new_agent ''TestAgent'' None)\<lparr>agent_status := RUNNING\<rparr>)"
proof -
  let ?self = "new_agent ''TestAgent'' None"
  have raised:
    "preprocess_task RaisingAgent (?self\<lparr>agent_status := RUNNING\<rparr>) ''test task'' None
       = Some (Inl (ExceptionRaised ''boom''))
     \<or> (\<exists>processed_task.
          preprocess_task RaisingAgent (?self\<lparr>agent_status := RUNNING\<rparr>) ''test task'' None
            = Some (Inr processed_task)
          \<and> (process_task RaisingAgent (?self\<lparr>agent_status := RUNNING\<rparr>) processed_task None
               = Some (Inl (ExceptionRaised ''boom''))
             \<or> (\<exists>response.
                  process_task RaisingAgent (?self\<lparr>agent_status := RUNNING\<rparr>) processed_task
                    None = Some (Inr response)
                  \<and> postprocess_response RaisingAgent (?self\<lparr>agent_status := RUNNING\<rparr>)
                      response = Some (Inl (ExceptionRaised ''boom'')))))"
    by (simp add: RaisingAgent_def base_preprocess_task_def)
  have exited:
    "preprocess_task ExitingAgent (?self\<lparr>agent_status := RUNNING\<rparr>) ''test task'' None
       = Some (Inl (BaseExceptionRaised ''bye''))
     \<or> (\<exists>processed_task.
          preprocess_task ExitingAgent (?self\<lparr>agent_status := RUNNING\<rparr>) ''test task'' None
            = Some (Inr processed_task)
          \<and> (process_task ExitingAgent (?self\<lparr>agent_status := RUNNING\<rparr>) processed_task None
               = Some (Inl (BaseExceptionRaised ''bye''))
             \<or> (\<exists>response.
                  process_task ExitingAgent (?self\<lparr>agent_status := RUNNING\<rparr>) processed_task
                    None = Some (Inr response)
                  \<and> postprocess_response ExitingAgent (?self\<lparr>agent_status := RUNNING\<rparr>)
                      response = Some (Inl (BaseExceptionRaised ''bye'')))))"
    by (simp add: ExitingAgent_def base_preprocess_task_def)
  from run_catches_hook_exception [OF raised] run_catches_hook_exception [OF exited]
  show ?thesis by (simp add: new_agent_def default_config_def)
qed

text \<open>
  Against C3 as stated: a \<open>process_task\<close> that calls \<open>sys.exit("bye")\<close>. \<open>run\<close> does
  not return a response: \<open>SystemExit\<close> reaches its caller, and the agent is left
  \<open>RUNNING\<close>.
\<close>

theorem run_propagates_system_exit:
  "run ExitingAgent (new_agent ''TestAgent'' None) ''test task'' None =
     Some (Propagated ''bye'', (new_agent ''TestAgent'' None)\<lparr>agent_status := RUNNING\<rparr>)"
  by (simp add: run_def ExitingAgent_def base_preprocess_task_def Let_def)

text \<open>
  C9. When \<open>process_task\<close> returns a response whose status is \<open>FAILED\<close> and the other
  two hooks return (the post-processing hook handing the response on as it is, as
  \<open>BaseAgent\<close>'s does), \<open>run\<close> returns that response and leaves the agent's status
  \<open>COMPLETED\<close>.
\<close>

theorem run_completed_with_failed_result:
  assumes "preprocess_task cls (self\<lparr>agent_status := RUNNING\<rparr>) task context
             = Some (Inr processed_task)"
    and "process_task cls (self\<lparr>agent_status := RUNNING\<rparr>) processed_task context
             = Some (Inr response)"
    and "status response = FAILED"
    and "postprocess_response cls (self\<lparr>agent_status := RUNNING\<rparr>) response
             = Some (Inr response)"
  shows "\<exists>self'. run cls self task context = Some (Returned response, self')
           \<and> agent_status self' = COMPLETED \<and> status response = FAILED"
  using assms by (simp add: run_def Let_def)

text \<open>A \<open>ResearcherAgent\<close> whose model was not initialised.\<close>

theorem run_completed_with_failed_result_witness:
  "\<exists>self'. run (ResearcherAgent (\<lambda>v. ''value'')) (new_agent ''ResearcherAgent'' None)
             ''topic'' None
      = Some (Returned \<lparr>agent_name = ''ResearcherAgent'', content = '''', status = FAILED,
                        metadata = [], tool_calls = [],
                        error = Some ''Model not initialized''\<rparr>, self')
     \<and> agent_status self' = COMPLETED"
proof -
  let ?cls = "ResearcherAgent (\<lambda>v. ''value'')"
  let ?self = "new_agent ''ResearcherAgent'' None"
  let ?response = "\<lparr>agent_name = ''ResearcherAgent'', content = '''', status = FAILED,
      metadata = [], tool_calls = [], error = Some ''Model not initialized''\<rparr>"
  have pre: "preprocess_task ?cls (?self\<lparr>agent_status := RUNNING\<rparr>) ''topic'' None
               = Some (Inr ''topic'')"
    by (simp add: ResearcherAgent_def base_preprocess_task_def)
  have processed: "process_task ?cls (?self\<lparr>agent_status := RUNNING\<rparr>) ''topic'' None
               = Some (Inr ?response)"
    by (simp add: ResearcherAgent_def new_agent_def default_config_def
        generate_with_tools_def failed_response_def)
  have failed: "status ?response = FAILED"
    by simp
  have post: "postprocess_response ?cls (?self\<lparr>agent_status := RUNNING\<rparr>) ?response
               = Some (Inr ?response)"
    by (simp add: ResearcherAgent_def base_postprocess_response_def)
  from run_completed_with_failed_result [OF pre processed failed post]
  show ?thesis by simp
qed

text \<open>
  What \<open>collaborate\<close> returns when both runs return: the two calls, the second with
  the derived task and the context naming the first agent and its output, and the
  dict literal, which has two entries when the names differ and one when they are
  equal.
\<close>

lemma collaborate_both_return:
  assumes "run (fst me) (snd me) task None = Some (Returned my_response, self')"
    and "run (fst other) (snd other)
           (''Build upon this previous work:'' @ [CHR 0x0A] @ content my_response
            @ [CHR 0x0A, CHR 0x0A] @ ''Task: '' @ task)
           (Some [(''previous_agent'', VStr (name (config (snd me)))),
                  (''previous_response'', VStr (content my_response))])
         = Some (Returned other_response, other')"
  shows "collaborate me other task =
           Some (Returned
                   (if name (config (snd me)) = name (config (snd other))
                    then [(name (config (snd me)), other_response)]
                    else [(name (config (snd me)), my_response),
                          (name (config (snd other)), other_response)]),
                 [\<lparr>callee = name (config (snd me)), task_arg = task, context_arg = None,
                   returned = my_response\<rparr>,
                  \<lparr>callee = name (config (snd other)),
                   task_arg = ''Build upon this previous work:'' @ [CHR 0x0A]
                              @ content my_response @ [CHR 0x0A, CHR 0x0A] @ ''Task: '' @ task,
                   context_arg = Some [(''previous_agent'', VStr (name (config (snd me)))),
                                       (''previous_response'', VStr (content my_response))],
                   returned = other_response\<rparr>],
                 self', other')"
  using assms by (simp add: collaborate_def Let_def)

text \<open>
  C8. The docstring of \<open>collaborate\<close> promises a dictionary with the responses of
  both agents, and the claim says the same of every two agents. The code, run on two
  agents that are both named \<open>Agent1\<close> (each built with
  \<open>AgentConfig(name="Agent1")\<close>) and the task \<open>topic X\<close>: the dictionary returned
  has one entry, the response of the second run; the response of the first agent is
  not in it.
\<close>

theorem collaborate_same_name_one_entry:
  "map_option fst
     (collaborate (TestAgent, new_agent ''Agent1'' None) (TestAgent, new_agent ''Agent1'' None)
        ''topic X'')
   = Some (Returned
       [(''Agent1'',
         \<lparr>agent_name = ''Agent1'',
          content = ''Processed: Build upon this previous work:'' @ [CHR 0x0A]
                    @ ''Processed: topic X'' @ [CHR 0x0A, CHR 0x0A] @ ''Task: topic X'',
          status = COMPLETED, metadata = [], tool_calls = [], error = None\<rparr>)])"
  by (simp add: collaborate_def test_agent_run)

section \<open>Properties of the orchestrator\<close>

lemmas orchestrator_doubles =
  two_agents_def researcher_and_tester_def register_agent_def new_orchestrator_def
  two_steps_def steps_with_ghost_def empty_dicts_def

text \<open>
  C4. With an empty list of results \<open>_synthesize_results\<close> returns a response with
  status \<open>COMPLETED\<close> and content \<open>No results to synthesize\<close>, and the list of its
  calls on the model is empty.
\<close>

theorem synthesize_no_results:
  "synthesize_results self [] original_task =
     Some (\<lparr>agent_name = name (config self), content = ''No results to synthesize'',
            status = COMPLETED, metadata = [], tool_calls = [], error = None\<rparr>, [])"
  by (simp add: synthesize_results_def)

subsection \<open>What run depends on\<close>

text \<open>
  \<open>run\<close> assigns the status before it reads \<open>self\<close>, and assigns nothing else: the
  status an agent has on entry does not matter, and the agent \<open>run\<close> leaves differs
  from the one it got in the status at most.
\<close>

lemma run_status_irrelevant:
  "run cls (agent\<lparr>agent_status := s\<rparr>) task context = run cls agent task context"
  by (simp add: run_def)

lemma run_leaves_fields:
  assumes "run cls agent task context = Some (outcome, agent')"
  shows "agent' = agent\<lparr>agent_status := agent_status agent'\<rparr>"
  using assms
  by (auto simp: run_def Let_def split: option.splits sum.splits raised.splits)

lemma run_again:
  assumes "run cls agent task context = Some (outcome, agent')"
  shows "run cls agent' task' context' = run cls agent task' context'"
proof -
  have "run cls agent' task' context'
          = run cls (agent\<lparr>agent_status := agent_status agent'\<rparr>) task' context'"
    using run_leaves_fields [OF assms] by simp
  then show ?thesis by (simp only: run_status_irrelevant)
qed

subsection \<open>One iteration of the workflow loops\<close>

lemma sequential_loop_step:
  assumes reg: "registered_agents self (step_agent_name task_info) = Some (cls, agent)"
    and loop: "sequential_loop self store i (task_info # rest) results calls
                 = Some (Returned results', out)"
  obtains ctx st response agent' where
    "ctx = (if 0 < i
            then AList.update ''previous_results'' (VList (map (\<lambda>r. VStr (content r)) results))
                   (case step_context task_info of None \<Rightarrow> [] | Some ref \<Rightarrow> store ref)
            else (case step_context task_info of None \<Rightarrow> [] | Some ref \<Rightarrow> store ref))"
    and "st = (case step_context task_info of None \<Rightarrow> store | Some ref \<Rightarrow> store(ref := ctx))"
    and "run cls agent (step_task task_info) (Some ctx) = Some (Returned response, agent')"
    and "sequential_loop
           (self\<lparr>registered_agents :=
              (registered_agents self)(step_agent_name task_info \<mapsto> (cls, agent'))\<rparr>)
           st (Suc i) rest (results @ [response])
           (calls @ [(i, \<lparr>callee = step_agent_name task_info, task_arg = step_task task_info,
                           context_arg = Some ctx, returned = response\<rparr>)])
         = Some (Returned results', out)"
proof -
  let ?ctx = "if 0 < i
            then AList.update ''previous_results'' (VList (map (\<lambda>r. VStr (content r)) results))
                   (case step_context task_info of None \<Rightarrow> [] | Some ref \<Rightarrow> store ref)
            else (case step_context task_info of None \<Rightarrow> [] | Some ref \<Rightarrow> store ref)"
  let ?st = "case step_context task_info of None \<Rightarrow> store | Some ref \<Rightarrow> store(ref := ?ctx)"
  from loop reg have unfolded:
    "(case run cls agent (step_task task_info) (Some ?ctx) of
        None \<Rightarrow> None
      | Some (Propagated e, agent') \<Rightarrow>
          Some (Propagated e, calls,
                self\<lparr>registered_agents :=
                  (registered_agents self)(step_agent_name task_info \<mapsto> (cls, agent'))\<rparr>,
                ?st)
      | Some (Returned response, agent') \<Rightarrow>
          sequential_loop
            (self\<lparr>registered_agents :=
               (registered_agents self)(step_agent_name task_info \<mapsto> (cls, agent'))\<rparr>)
            ?st (Suc i) rest (results @ [response])
            (calls @ [(i, \<lparr>callee = step_agent_name task_info, task_arg = step_task task_info,
                            context_arg = Some ?ctx, returned = response\<rparr>)]))
     = Some (Returned results', out)"
    by (simp add: Let_def)
  have "\<exists>response agent'.
          run cls agent (step_task task_info) (Some ?ctx) = Some (Returned response, agent')"
  proof (cases "run cls agent (step_task task_info) (Some ?ctx)")
    case None
    with unfolded show ?thesis by simp
  next
    case (Some p)
    obtain outcome agent' where p: "p = (outcome, agent')" by (cases p)
    show ?thesis
    proof (cases outcome)
      case (Returned response)
      with Some p show ?thesis by simp
    next
      case (Propagated e)
      with Some p unfolded show ?thesis by simp
    qed
  qed
  then obtain response agent' where
    r: "run cls agent (step_task task_info) (Some ?ctx) = Some (Returned response, agent')"
    by blast
  with unfolded have
    "run cls agent (step_task task_info) (Some ?ctx) = Some (Returned response, agent')"
    "sequential_loop
            (self\<lparr>registered_agents :=
               (registered_agents self)(step_agent_name task_info \<mapsto> (cls, agent'))\<rparr>)
            ?st (Suc i) rest (results @ [response])
            (calls @ [(i, \<lparr>callee = step_agent_name task_info, task_arg = step_task task_info,
                            context_arg = Some ?ctx, returned = response\<rparr>)])
     = Some (Returned results', out)"
    by simp_all
  then show thesis by (rule that [OF refl refl])
qed

lemma parallel_loop_step:
  assumes reg: "registered_agents self (step_agent_name task_info) = Some (cls, agent)"
    and loop: "parallel_loop self store (task_info # rest) results calls
                 = Some (Returned results', out)"
  obtains response agent' where
    "run cls agent (step_task task_info)
       (Some (case step_context task_info of None \<Rightarrow> [] | Some ref \<Rightarrow> store ref))
     = Some (Returned response, agent')"
    and "parallel_loop
           (self\<lparr>registered_agents :=
              (registered_agents self)(step_agent_name task_info \<mapsto> (cls, agent'))\<rparr>)
           store rest (results @ [response])
           (calls @ [\<lparr>callee = step_agent_name task_info, task_arg = step_task task_info,
                       context_arg = Some (case step_context task_info of
                                             None \<Rightarrow> [] | Some ref \<Rightarrow> store ref),
                       returned = response\<rparr>])
         = Some (Returned results', out)"
proof -
  let ?ctx = "case step_context task_info of None \<Rightarrow> [] | Some ref \<Rightarrow> store ref"
  from loop reg have unfolded:
    "(case run cls agent (step_task task_info) (Some ?ctx) of
        None \<Rightarrow> None
      | Some (Propagated e, agent') \<Rightarrow>
          Some (Propagated e, calls,
                self\<lparr>registered_agents :=
                  (registered_agents self)(step_agent_name task_info \<mapsto> (cls, agent'))\<rparr>)
      | Some (Returned response, agent') \<Rightarrow>
          parallel_loop
            (self\<lparr>registered_agents :=
               (registered_agents self)(step_agent_name task_info \<mapsto> (cls, agent'))\<rparr>)
            store rest (results @ [response])
            (calls @ [\<lparr>callee = step_agent_name task_info, task_arg = step_task task_info,
                        context_arg = Some ?ctx, returned = response\<rparr>]))
     = Some (Returned results', out)"
    by (simp add: Let_def)
  have "\<exists>response agent'.
          run cls agent (step_task task_info) (Some ?ctx) = Some (Returned response, agent')"
  proof (cases "run cls agent (step_task task_info) (Some ?ctx)")
    case None
    with unfolded show ?thesis by simp
  next
    case (Some p)
    obtain outcome agent' where p: "p = (outcome, agent')" by (cases p)
    show ?thesis
    proof (cases outcome)
      case (Returned response)
      with Some p show ?thesis by simp
    next
      case (Propagated e)
      with Some p unfolded show ?thesis by simp
    qed
  qed
  then obtain response agent' where
    r: "run cls agent (step_task task_info) (Some ?ctx) = Some (Returned response, agent')"
    by blast
  with unfolded have
    "run cls agent (step_task task_info) (Some ?ctx) = Some (Returned response, agent')"
    "parallel_loop
            (self\<lparr>registered_agents :=
               (registered_agents self)(step_agent_name task_info \<mapsto> (cls, agent'))\<rparr>)
            store rest (results @ [response])
            (calls @ [\<lparr>callee = step_agent_name task_info, task_arg = step_task task_info,
                        context_arg = Some ?ctx, returned = response\<rparr>])
     = Some (Returned results', out)"
    by simp_all
  then show thesis by (rule that)
qed

lemma registry_update_dom:
  assumes "registered_agents self k = Some entry"
  shows "dom (registered_agents (self\<lparr>registered_agents := (registered_agents self)(k \<mapsto> entry')\<rparr>))
           = dom (registered_agents self)"
  using assms by auto

text \<open>
  The registry after a run: under every name the class it had, and an agent on which
  \<open>run\<close> does what it does on the one registered before.
\<close>

lemma registry_update_lookup:
  assumes "registered_agents self k = Some (cls, agent)"
    and "run cls agent task context = Some (outcome, agent')"
    and "registered_agents
           (self\<lparr>registered_agents := (registered_agents self)(k \<mapsto> (cls, agent'))\<rparr>) n
         = Some (cls', agent1)"
  shows "\<exists>agent0. registered_agents self n = Some (cls', agent0)
           \<and> (\<forall>t c. run cls' agent1 t c = run cls' agent0 t c)"
proof (cases "n = k")
  case True
  with assms(3) have "cls' = cls" "agent1 = agent'" by simp_all
  with True assms(1) run_again [OF assms(2)] show ?thesis by simp
next
  case False
  with assms(3) show ?thesis by simp
qed

subsection \<open>The loops by induction over the steps\<close>

lemma sequential_loop_returns:
  assumes "\<forall>s\<in>set tasks. \<forall>cls agent.
             registered_agents self (step_agent_name s) = Some (cls, agent) \<longrightarrow>
             (\<forall>c. \<exists>response agent'.
                run cls agent (step_task s) (Some c) = Some (Returned response, agent'))"
  shows "\<exists>results' calls' self' store'.
           sequential_loop self store i tasks results calls
             = Some (Returned results', calls', self', store')"
  using assms
proof (induction tasks arbitrary: self store i results calls)
  case Nil
  then show ?case by simp
next
  case (Cons task_info rest)
  show ?case
  proof (cases "registered_agents self (step_agent_name task_info)")
    case None
    have "\<forall>s\<in>set rest. \<forall>cls agent.
             registered_agents self (step_agent_name s) = Some (cls, agent) \<longrightarrow>
             (\<forall>c. \<exists>response agent'.
                run cls agent (step_task s) (Some c) = Some (Returned response, agent'))"
      using Cons.prems by simp
    from Cons.IH [OF this] show ?thesis using None by simp
  next
    case (Some entry)
    obtain cls agent where entry: "entry = (cls, agent)" by (cases entry)
    from Some entry have reg: "registered_agents self (step_agent_name task_info) = Some (cls, agent)"
      by simp
    let ?ctx = "if 0 < i
            then AList.update ''previous_results'' (VList (map (\<lambda>r. VStr (content r)) results))
                   (case step_context task_info of None \<Rightarrow> [] | Some ref \<Rightarrow> store ref)
            else (case step_context task_info of None \<Rightarrow> [] | Some ref \<Rightarrow> store ref)"
    from Cons.prems reg
    obtain response agent' where r:
      "run cls agent (step_task task_info) (Some ?ctx) = Some (Returned response, agent')"
      by (metis list.set_intros(1))
    let ?self = "self\<lparr>registered_agents :=
                   (registered_agents self)(step_agent_name task_info \<mapsto> (cls, agent'))\<rparr>"
    have "\<forall>s\<in>set rest. \<forall>cls' agent1.
             registered_agents ?self (step_agent_name s) = Some (cls', agent1) \<longrightarrow>
             (\<forall>c. \<exists>response agent'.
                run cls' agent1 (step_task s) (Some c) = Some (Returned response, agent'))"
    proof (intro ballI allI impI)
      fix s cls' agent1 c
      assume s: "s \<in> set rest"
        and "registered_agents ?self (step_agent_name s) = Some (cls', agent1)"
      from registry_update_lookup [OF reg r this(2)]
      obtain agent0 where "registered_agents self (step_agent_name s) = Some (cls', agent0)"
        and same: "\<forall>t c. run cls' agent1 t c = run cls' agent0 t c"
        by blast
      with Cons.prems s
      have "\<exists>response agent'.
              run cls' agent0 (step_task s) (Some c) = Some (Returned response, agent')"
        by (metis list.set_intros(2))
      with same show "\<exists>response agent'.
              run cls' agent1 (step_task s) (Some c) = Some (Returned response, agent')"
        by simp
    qed
    from Cons.IH [OF this] show ?thesis
      using reg r by (simp add: Let_def)
  qed
qed

lemma sequential_loop_calls:
  assumes "sequential_loop self store i tasks results calls
             = Some (Returned results', calls', self', store')"
  shows "\<exists>new. calls' = calls @ new \<and> results' = results @ map (\<lambda>(k, c). returned c) new
           \<and> map (\<lambda>(k, c). (k, callee c, task_arg c)) new
               = map (\<lambda>(k, s). (k, step_agent_name s, step_task s))
                   (filter (\<lambda>(k, s). step_agent_name s \<in> dom (registered_agents self))
                      (enumerate i tasks))
           \<and> dom (registered_agents self') = dom (registered_agents self)
           \<and> (\<forall>(k, c)\<in>set new. \<exists>cls agent agent'.
                 registered_agents self (callee c) = Some (cls, agent)
                 \<and> run cls agent (task_arg c) (context_arg c)
                     = Some (Returned (returned c), agent'))"
  using assms
proof (induction tasks arbitrary: self store i results calls)
  case Nil
  then show ?case by simp
next
  case (Cons task_info rest)
  show ?case
  proof (cases "registered_agents self (step_agent_name task_info)")
    case None
    with Cons.prems have "sequential_loop self store (Suc i) rest results calls
        = Some (Returned results', calls', self', store')" by simp
    from Cons.IH [OF this] show ?thesis using None by (auto simp: domIff)
  next
    case (Some entry)
    obtain cls agent where entry: "entry = (cls, agent)" by (cases entry)
    from Some entry have reg: "registered_agents self (step_agent_name task_info) = Some (cls, agent)"
      by simp
    obtain ctx st response agent' where
      ctx: "ctx = (if 0 < i
            then AList.update ''previous_results'' (VList (map (\<lambda>r. VStr (content r)) results))
                   (case step_context task_info of None \<Rightarrow> [] | Some ref \<Rightarrow> store ref)
            else (case step_context task_info of None \<Rightarrow> [] | Some ref \<Rightarrow> store ref))"
      and st: "st = (case step_context task_info of None \<Rightarrow> store | Some ref \<Rightarrow> store(ref := ctx))"
      and r: "run cls agent (step_task task_info) (Some ctx) = Some (Returned response, agent')"
      and loop: "sequential_loop
           (self\<lparr>registered_agents :=
              (registered_agents self)(step_agent_name task_info \<mapsto> (cls, agent'))\<rparr>)
           st (Suc i) rest (results @ [response])
           (calls @ [(i, \<lparr>callee = step_agent_name task_info, task_arg = step_task task_info,
                           context_arg = Some ctx, returned = response\<rparr>)])
         = Some (Returned results', calls', self', store')"
      by (rule sequential_loop_step [OF reg Cons.prems(1)])
    let ?self = "self\<lparr>registered_agents :=
                   (registered_agents self)(step_agent_name task_info \<mapsto> (cls, agent'))\<rparr>"
    let ?call = "(i, \<lparr>callee = step_agent_name task_info, task_arg = step_task task_info,
                      context_arg = Some ctx, returned = response\<rparr>)"
    from Cons.IH [OF loop, unfolded registry_update_dom [OF reg]] obtain new where new:
      "calls' = (calls @ [?call]) @ new"
      "results' = (results @ [response]) @ map (\<lambda>(k, c). returned c) new"
      "map (\<lambda>(k, c). (k, callee c, task_arg c)) new
               = map (\<lambda>(k, s). (k, step_agent_name s, step_task s))
                   (filter (\<lambda>(k, s). step_agent_name s \<in> dom (registered_agents self))
                      (enumerate (Suc i) rest))"
      "dom (registered_agents self') = dom (registered_agents self)"
      and later: "\<forall>(k, c)\<in>set new. \<exists>cls' agent1 agent''.
                 registered_agents ?self (callee c) = Some (cls', agent1)
                 \<and> run cls' agent1 (task_arg c) (context_arg c)
                     = Some (Returned (returned c), agent'')"
      by blast
    have runs: "\<forall>(k, c)\<in>set (?call # new). \<exists>cls' agent0 agent''.
                 registered_agents self (callee c) = Some (cls', agent0)
                 \<and> run cls' agent0 (task_arg c) (context_arg c)
                     = Some (Returned (returned c), agent'')"
    proof (intro ballI)
      fix p assume p: "p \<in> set (?call # new)"
      obtain k c where kc: "p = (k, c)" by (cases p)
      show "case p of (k, c) \<Rightarrow> \<exists>cls' agent0 agent''.
                 registered_agents self (callee c) = Some (cls', agent0)
                 \<and> run cls' agent0 (task_arg c) (context_arg c)
                     = Some (Returned (returned c), agent'')"
      proof (cases "p = ?call")
        case True
        with reg r show ?thesis by simp
      next
        case False
        with p kc have "(k, c) \<in> set new" by auto
        with later obtain cls' agent1 agent'' where
          l: "registered_agents ?self (callee c) = Some (cls', agent1)"
          and rr: "run cls' agent1 (task_arg c) (context_arg c)
                     = Some (Returned (returned c), agent'')"
          by blast
        from registry_update_lookup [OF reg r l]
        obtain agent0 where "registered_agents self (callee c) = Some (cls', agent0)"
          and "\<forall>t x. run cls' agent1 t x = run cls' agent0 t x"
          by blast
        with rr kc show ?thesis by auto
      qed
    qed
    have "step_agent_name task_info \<in> dom (registered_agents self)" using Some by auto
    then show ?thesis
      using new runs by (intro exI [of _ "?call # new"]) simp
  qed
qed

lemma task_context_after_step:
  assumes "ctx = (if 0 < i
            then AList.update ''previous_results'' previous
                   (case step_context task_info of None \<Rightarrow> [] | Some ref \<Rightarrow> store ref)
            else (case step_context task_info of None \<Rightarrow> [] | Some ref \<Rightarrow> store ref))"
    and "st = (case step_context task_info of None \<Rightarrow> store | Some ref \<Rightarrow> store(ref := ctx))"
  shows "(map_of (task_context st s))(''previous_results'' \<mapsto> v)
           = (map_of (task_context store s))(''previous_results'' \<mapsto> v)"
  by (auto simp: assms task_context_def update_conv' split: option.splits)

lemma sequential_loop_contexts:
  assumes "sequential_loop self store i tasks results calls
             = Some (Returned results', calls', self', store')"
    and "length results = length calls"
  shows "\<forall>j. length calls \<le> j \<and> j < length calls' \<longrightarrow>
           (case calls' ! j of (k, c) \<Rightarrow>
              i \<le> k \<and> k < i + length tasks
              \<and> (\<exists>ctx. context_arg c = Some ctx
                   \<and> (if 0 < k
                       then map_of ctx
                              = (map_of (task_context store (tasks ! (k - i))))
                                  (''previous_results'' \<mapsto>
                                     VList (map (\<lambda>r. VStr (content r)) (take j results')))
                       else ctx = task_context store (tasks ! (k - i)))))"
  using assms
proof (induction tasks arbitrary: self store i results calls)
  case Nil
  then show ?case by auto
next
  case (Cons task_info rest)
  show ?case
  proof (cases "registered_agents self (step_agent_name task_info)")
    case None
    with Cons.prems have loop: "sequential_loop self store (Suc i) rest results calls
        = Some (Returned results', calls', self', store')" by simp
    note IH = Cons.IH [OF loop Cons.prems(2)]
    show ?thesis
    proof (intro allI impI)
      fix j assume j: "length calls \<le> j \<and> j < length calls'"
      obtain k c where kc: "calls' ! j = (k, c)" by (cases "calls' ! j")
      from IH [THEN spec, THEN mp, OF j] kc
      obtain ctx where k: "Suc i \<le> k" "k < Suc i + length rest"
        and ctx: "context_arg c = Some ctx"
          "map_of ctx = (map_of (task_context store (rest ! (k - Suc i))))
                          (''previous_results'' \<mapsto>
                             VList (map (\<lambda>r. VStr (content r)) (take j results')))"
        by (auto split: if_splits)
      from k have "(task_info # rest) ! (k - i) = rest ! (k - Suc i)"
        by (simp add: nth_Cons')
      with k ctx kc
      show "case calls' ! j of (k, c) \<Rightarrow>
              i \<le> k \<and> k < i + length (task_info # rest)
              \<and> (\<exists>ctx. context_arg c = Some ctx
                   \<and> (if 0 < k
                       then map_of ctx
                              = (map_of (task_context store ((task_info # rest) ! (k - i))))
                                  (''previous_results'' \<mapsto>
                                     VList (map (\<lambda>r. VStr (content r)) (take j results')))
                       else ctx = task_context store ((task_info # rest) ! (k - i))))"
        by simp
    qed
  next
    case (Some entry)
    obtain cls agent where entry: "entry = (cls, agent)" by (cases entry)
    from Some entry have reg: "registered_agents self (step_agent_name task_info) = Some (cls, agent)"
      by simp
    obtain ctx st response agent' where
      ctx: "ctx = (if 0 < i
            then AList.update ''previous_results'' (VList (map (\<lambda>r. VStr (content r)) results))
                   (case step_context task_info of None \<Rightarrow> [] | Some ref \<Rightarrow> store ref)
            else (case step_context task_info of None \<Rightarrow> [] | Some ref \<Rightarrow> store ref))"
      and st: "st = (case step_context task_info of None \<Rightarrow> store | Some ref \<Rightarrow> store(ref := ctx))"
      and r: "run cls agent (step_task task_info) (Some ctx) = Some (Returned response, agent')"
      and loop: "sequential_loop
           (self\<lparr>registered_agents :=
              (registered_agents self)(step_agent_name task_info \<mapsto> (cls, agent'))\<rparr>)
           st (Suc i) rest (results @ [response])
           (calls @ [(i, \<lparr>callee = step_agent_name task_info, task_arg = step_task task_info,
                           context_arg = Some ctx, returned = response\<rparr>)])
         = Some (Returned results', calls', self', store')"
      by (rule sequential_loop_step [OF reg Cons.prems(1)])
    let ?call = "(i, \<lparr>callee = step_agent_name task_info, task_arg = step_task task_info,
                      context_arg = Some ctx, returned = response\<rparr>)"
    have len: "length (results @ [response]) = length (calls @ [?call])"
      using Cons.prems(2) by simp
    note IH = Cons.IH [OF loop len]
    from sequential_loop_calls [OF loop] obtain new where new:
      "calls' = (calls @ [?call]) @ new"
      "results' = (results @ [response]) @ map (\<lambda>(k, c). returned c) new"
      by blast
    have here: "calls' ! length calls = ?call"
      using new(1) by (simp add: nth_append)
    have before: "take (length calls) results' = results"
      using new(2) Cons.prems(2) by simp
    have this_context: "if 0 < i
        then map_of ctx = (map_of (task_context store task_info))
                            (''previous_results'' \<mapsto> VList (map (\<lambda>r. VStr (content r)) results))
        else ctx = task_context store task_info"
      by (simp add: ctx update_conv' task_context_def)
    show ?thesis
    proof (intro allI impI)
      fix j assume j: "length calls \<le> j \<and> j < length calls'"
      show "case calls' ! j of (k, c) \<Rightarrow>
              i \<le> k \<and> k < i + length (task_info # rest)
              \<and> (\<exists>ctx. context_arg c = Some ctx
                   \<and> (if 0 < k
                       then map_of ctx
                              = (map_of (task_context store ((task_info # rest) ! (k - i))))
                                  (''previous_results'' \<mapsto>
                                     VList (map (\<lambda>r. VStr (content r)) (take j results')))
                       else ctx = task_context store ((task_info # rest) ! (k - i))))"
      proof (cases "j = length calls")
        case True
        then show ?thesis using here before this_context by simp
      next
        case False
        with j have later: "length (calls @ [?call]) \<le> j \<and> j < length calls'" by simp
        obtain k c where kc: "calls' ! j = (k, c)" by (cases "calls' ! j")
        from IH [THEN spec, THEN mp, OF later] kc
        obtain ctx' where k: "Suc i \<le> k" "k < Suc i + length rest"
          and ctx': "context_arg c = Some ctx'"
            "map_of ctx' = (map_of (task_context st (rest ! (k - Suc i))))
                            (''previous_results'' \<mapsto>
                               VList (map (\<lambda>r. VStr (content r)) (take j results')))"
          by (auto split: if_splits)
        from k have "(task_info # rest) ! (k - i) = rest ! (k - Suc i)"
          by (simp add: nth_Cons')
        with k ctx' kc task_context_after_step [OF ctx st]
        show ?thesis by simp
      qed
    qed
  qed
qed

lemma sequential_loop_keys:
  assumes "sequential_loop self store i tasks results calls
             = Some (Returned results', calls', self', store')"
  shows "fst ` set (store ref) \<subseteq> fst ` set (store' ref)"
  using assms
proof (induction tasks arbitrary: self store i results calls)
  case Nil
  then show ?case by simp
next
  case (Cons task_info rest)
  show ?case
  proof (cases "registered_agents self (step_agent_name task_info)")
    case None
    with Cons.prems have "sequential_loop self store (Suc i) rest results calls
        = Some (Returned results', calls', self', store')" by simp
    from Cons.IH [OF this] show ?thesis .
  next
    case (Some entry)
    obtain cls agent where entry: "entry = (cls, agent)" by (cases entry)
    from Some entry have reg: "registered_agents self (step_agent_name task_info) = Some (cls, agent)"
      by simp
    obtain ctx st response agent' where
      ctx: "ctx = (if 0 < i
            then AList.update ''previous_results'' (VList (map (\<lambda>r. VStr (content r)) results))
                   (case step_context task_info of None \<Rightarrow> [] | Some ref \<Rightarrow> store ref)
            else (case step_context task_info of None \<Rightarrow> [] | Some ref \<Rightarrow> store ref))"
      and st: "st = (case step_context task_info of None \<Rightarrow> store | Some ref \<Rightarrow> store(ref := ctx))"
      and r: "run cls agent (step_task task_info) (Some ctx) = Some (Returned response, agent')"
      and loop: "sequential_loop
           (self\<lparr>registered_agents :=
              (registered_agents self)(step_agent_name task_info \<mapsto> (cls, agent'))\<rparr>)
           st (Suc i) rest (results @ [response])
           (calls @ [(i, \<lparr>callee = step_agent_name task_info, task_arg = step_task task_info,
                           context_arg = Some ctx, returned = response\<rparr>)])
         = Some (Returned results', calls', self', store')"
      by (rule sequential_loop_step [OF reg Cons.prems(1)])
    have "fst ` set (store ref) \<subseteq> fst ` set (st ref)"
      by (auto simp: st ctx dom_update split: option.splits)
    with Cons.IH [OF loop] show ?thesis by blast
  qed
qed

lemma sequential_loop_mutates:
  assumes "sequential_loop self store i tasks results calls
             = Some (Returned results', calls', self', store')"
    and "m < length tasks" and "0 < i + m"
    and "step_context (tasks ! m) = Some ref"
    and "step_agent_name (tasks ! m) \<in> dom (registered_agents self)"
  shows "''previous_results'' \<in> fst ` set (store' ref)"
  using assms
proof (induction tasks arbitrary: self store i results calls m)
  case Nil
  then show ?case by simp
next
  case (Cons task_info rest)
  show ?case
  proof (cases "registered_agents self (step_agent_name task_info)")
    case None
    with Cons.prems(1) have loop: "sequential_loop self store (Suc i) rest results calls
        = Some (Returned results', calls', self', store')" by simp
    from None Cons.prems(5) obtain m' where m': "m = Suc m'"
      by (cases m) (auto simp: domIff)
    show ?thesis
      using Cons.IH [OF loop, of m'] Cons.prems(2-5) m' by simp
  next
    case (Some entry)
    obtain cls agent where entry: "entry = (cls, agent)" by (cases entry)
    from Some entry have reg: "registered_agents self (step_agent_name task_info) = Some (cls, agent)"
      by simp
    obtain ctx st response agent' where
      ctx: "ctx = (if 0 < i
            then AList.update ''previous_results'' (VList (map (\<lambda>r. VStr (content r)) results))
                   (case step_context task_info of None \<Rightarrow> [] | Some ref \<Rightarrow> store ref)
            else (case step_context task_info of None \<Rightarrow> [] | Some ref \<Rightarrow> store ref))"
      and st: "st = (case step_context task_info of None \<Rightarrow> store | Some ref \<Rightarrow> store(ref := ctx))"
      and r: "run cls agent (step_task task_info) (Some ctx) = Some (Returned response, agent')"
      and loop: "sequential_loop
           (self\<lparr>registered_agents :=
              (registered_agents self)(step_agent_name task_info \<mapsto> (cls, agent'))\<rparr>)
           st (Suc i) rest (results @ [response])
           (calls @ [(i, \<lparr>callee = step_agent_name task_info, task_arg = step_task task_info,
                           context_arg = Some ctx, returned = response\<rparr>)])
         = Some (Returned results', calls', self', store')"
      by (rule sequential_loop_step [OF reg Cons.prems(1)])
    show ?thesis
    proof (cases m)
      case 0
      with Cons.prems(3,4) have "''previous_results'' \<in> fst ` set (st ref)"
        by (simp add: st ctx dom_update)
      with sequential_loop_keys [OF loop, of ref] show ?thesis by blast
    next
      case (Suc m')
      have a: "m' < length rest" using Cons.prems(2) Suc by simp
      have b: "0 < Suc i + m'" by simp
      have c: "step_context (rest ! m') = Some ref" using Cons.prems(4) Suc by simp
      have "step_agent_name (rest ! m') \<in> dom (registered_agents self)"
        using Cons.prems(5) Suc by simp
      then have d: "step_agent_name (rest ! m') \<in> dom (registered_agents
              (self\<lparr>registered_agents :=
                (registered_agents self)(step_agent_name task_info \<mapsto> (cls, agent'))\<rparr>))"
        unfolding registry_update_dom [OF reg] .
      show ?thesis by (rule Cons.IH [OF loop a b c d])
    qed
  qed
qed

lemma parallel_loop_returns:
  assumes "\<forall>s\<in>set tasks. \<forall>cls agent.
             registered_agents self (step_agent_name s) = Some (cls, agent) \<longrightarrow>
             (\<forall>c. \<exists>response agent'.
                run cls agent (step_task s) (Some c) = Some (Returned response, agent'))"
  shows "\<exists>results' calls' self'.
           parallel_loop self store tasks results calls = Some (Returned results', calls', self')"
  using assms
proof (induction tasks arbitrary: self results calls)
  case Nil
  then show ?case by simp
next
  case (Cons task_info rest)
  show ?case
  proof (cases "registered_agents self (step_agent_name task_info)")
    case None
    have "\<forall>s\<in>set rest. \<forall>cls agent.
             registered_agents self (step_agent_name s) = Some (cls, agent) \<longrightarrow>
             (\<forall>c. \<exists>response agent'.
                run cls agent (step_task s) (Some c) = Some (Returned response, agent'))"
      using Cons.prems by simp
    from Cons.IH [OF this] show ?thesis using None by simp
  next
    case (Some entry)
    obtain cls agent where entry: "entry = (cls, agent)" by (cases entry)
    from Some entry have reg: "registered_agents self (step_agent_name task_info) = Some (cls, agent)"
      by simp
    let ?ctx = "case step_context task_info of None \<Rightarrow> [] | Some ref \<Rightarrow> store ref"
    from Cons.prems reg
    obtain response agent' where r:
      "run cls agent (step_task task_info) (Some ?ctx) = Some (Returned response, agent')"
      by (metis list.set_intros(1))
    let ?self = "self\<lparr>registered_agents :=
                   (registered_agents self)(step_agent_name task_info \<mapsto> (cls, agent'))\<rparr>"
    have "\<forall>s\<in>set rest. \<forall>cls' agent1.
             registered_agents ?self (step_agent_name s) = Some (cls', agent1) \<longrightarrow>
             (\<forall>c. \<exists>response agent'.
                run cls' agent1 (step_task s) (Some c) = Some (Returned response, agent'))"
    proof (intro ballI allI impI)
      fix s cls' agent1 c
      assume s: "s \<in> set rest"
        and "registered_agents ?self (step_agent_name s) = Some (cls', agent1)"
      from registry_update_lookup [OF reg r this(2)]
      obtain agent0 where "registered_agents self (step_agent_name s) = Some (cls', agent0)"
        and same: "\<forall>t c. run cls' agent1 t c = run cls' agent0 t c"
        by blast
      with Cons.prems s
      have "\<exists>response agent'.
              run cls' agent0 (step_task s) (Some c) = Some (Returned response, agent')"
        by (metis list.set_intros(2))
      with same show "\<exists>response agent'.
              run cls' agent1 (step_task s) (Some c) = Some (Returned response, agent')"
        by simp
    qed
    from Cons.IH [OF this] show ?thesis
      using reg r by (simp add: Let_def)
  qed
qed

lemma parallel_loop_calls:
  assumes "parallel_loop self store tasks results calls = Some (Returned results', calls', self')"
  shows "\<exists>new. calls' = calls @ new \<and> results' = results @ map returned new
           \<and> map (\<lambda>c. (callee c, task_arg c, context_arg c)) new
               = map (\<lambda>s. (step_agent_name s, step_task s, Some (task_context store s)))
                   (filter (\<lambda>s. step_agent_name s \<in> dom (registered_agents self)) tasks)
           \<and> dom (registered_agents self') = dom (registered_agents self)
           \<and> (\<forall>c\<in>set new. \<exists>cls agent agent'.
                 registered_agents self (callee c) = Some (cls, agent)
                 \<and> run cls agent (task_arg c) (context_arg c)
                     = Some (Returned (returned c), agent'))"
  using assms
proof (induction tasks arbitrary: self results calls)
  case Nil
  then show ?case by simp
next
  case (Cons task_info rest)
  show ?case
  proof (cases "registered_agents self (step_agent_name task_info)")
    case None
    with Cons.prems have "parallel_loop self store rest results calls
        = Some (Returned results', calls', self')" by simp
    from Cons.IH [OF this] show ?thesis using None by (auto simp: domIff)
  next
    case (Some entry)
    obtain cls agent where entry: "entry = (cls, agent)" by (cases entry)
    from Some entry have reg: "registered_agents self (step_agent_name task_info) = Some (cls, agent)"
      by simp
    obtain response agent' where
      r: "run cls agent (step_task task_info)
            (Some (case step_context task_info of None \<Rightarrow> [] | Some ref \<Rightarrow> store ref))
          = Some (Returned response, agent')"
      and loop: "parallel_loop
           (self\<lparr>registered_agents :=
              (registered_agents self)(step_agent_name task_info \<mapsto> (cls, agent'))\<rparr>)
           store rest (results @ [response])
           (calls @ [\<lparr>callee = step_agent_name task_info, task_arg = step_task task_info,
                       context_arg = Some (case step_context task_info of
                                             None \<Rightarrow> [] | Some ref \<Rightarrow> store ref),
                       returned = response\<rparr>])
         = Some (Returned results', calls', self')"
      by (rule parallel_loop_step [OF reg Cons.prems(1)])
    let ?self = "self\<lparr>registered_agents :=
                   (registered_agents self)(step_agent_name task_info \<mapsto> (cls, agent'))\<rparr>"
    let ?call = "\<lparr>callee = step_agent_name task_info, task_arg = step_task task_info,
                       context_arg = Some (case step_context task_info of
                                             None \<Rightarrow> [] | Some ref \<Rightarrow> store ref),
                       returned = response\<rparr>"
    from Cons.IH [OF loop, unfolded registry_update_dom [OF reg]] obtain new where new:
      "calls' = (calls @ [?call]) @ new"
      "results' = (results @ [response]) @ map returned new"
      "map (\<lambda>c. (callee c, task_arg c, context_arg c)) new
               = map (\<lambda>s. (step_agent_name s, step_task s, Some (task_context store s)))
                   (filter (\<lambda>s. step_agent_name s \<in> dom (registered_agents self)) rest)"
      "dom (registered_agents self') = dom (registered_agents self)"
      and later: "\<forall>c\<in>set new. \<exists>cls' agent1 agent''.
                 registered_agents ?self (callee c) = Some (cls', agent1)
                 \<and> run cls' agent1 (task_arg c) (context_arg c)
                     = Some (Returned (returned c), agent'')"
      by blast
    have runs: "\<forall>c\<in>set (?call # new). \<exists>cls' agent0 agent''.
                 registered_agents self (callee c) = Some (cls', agent0)
                 \<and> run cls' agent0 (task_arg c) (context_arg c)
                     = Some (Returned (returned c), agent'')"
    proof (intro ballI)
      fix c assume c: "c \<in> set (?call # new)"
      show "\<exists>cls' agent0 agent''.
                 registered_agents self (callee c) = Some (cls', agent0)
                 \<and> run cls' agent0 (task_arg c) (context_arg c)
                     = Some (Returned (returned c), agent'')"
      proof (cases "c = ?call")
        case True
        with reg r show ?thesis by simp
      next
        case False
        with c have "c \<in> set new" by auto
        with later obtain cls' agent1 agent'' where
          l: "registered_agents ?self (callee c) = Some (cls', agent1)"
          and rr: "run cls' agent1 (task_arg c) (context_arg c)
                     = Some (Returned (returned c), agent'')"
          by blast
        from registry_update_lookup [OF reg r l]
        obtain agent0 where "registered_agents self (callee c) = Some (cls', agent0)"
          and "\<forall>t x. run cls' agent1 t x = run cls' agent0 t x"
          by blast
        with rr show ?thesis by auto
      qed
    qed
    have "step_agent_name task_info \<in> dom (registered_agents self)" using Some by auto
    then show ?thesis
      using new runs by (intro exI [of _ "?call # new"]) (simp add: task_context_def)
  qed
qed

subsection \<open>The workflows as a whole\<close>

lemma length_filter_enumerate:
  "length (filter (\<lambda>(k, s). P s) (enumerate i xs)) = length (filter P xs)"
  by (induction xs arbitrary: i) simp_all



text \<open>
  C6. Let the \<open>run\<close> of every registered agent that a step names return on that
  step's task. Then both workflows return. The calls of \<open>run\<close> are, in the order of
  the steps, those of the steps whose agent name is registered (for the sequential
  workflow each with its step's index), and the result list has one entry per such
  step: a step with an unregistered name makes no call and leaves no entry, and the
  steps after it are executed. Each entry is what \<open>run\<close> returns for the registered
  agent of that name on the step's task and the context passed. That context is the
  step's dict, in the sequential workflow with \<open>previous_results\<close> set to the
  contents of the results before it when the step's index is not 0.
\<close>

theorem workflows_skip_unregistered:
  assumes "\<forall>s\<in>set tasks. \<forall>cls agent.
             registered_agents self (step_agent_name s) = Some (cls, agent) \<longrightarrow>
             (\<forall>c. \<exists>response agent'.
                run cls agent (step_task s) (Some c) = Some (Returned response, agent'))"
  shows "(\<exists>results calls self' store'.
            execute_sequential_workflow self store tasks
              = Some (Returned results, calls, self', store')
            \<and> results = map (\<lambda>(i, c). returned c) calls
            \<and> map (\<lambda>(i, c). (i, callee c, task_arg c)) calls
                = map (\<lambda>(i, s). (i, step_agent_name s, step_task s))
                    (filter (\<lambda>(i, s). step_agent_name s \<in> dom (registered_agents self))
                       (enumerate 0 tasks))
            \<and> length results
                = length (filter (\<lambda>s. step_agent_name s \<in> dom (registered_agents self)) tasks)
            \<and> (\<forall>(i, c)\<in>set calls. \<exists>cls agent agent'.
                  registered_agents self (callee c) = Some (cls, agent)
                  \<and> run cls agent (task_arg c) (context_arg c)
                      = Some (Returned (returned c), agent'))
            \<and> (\<forall>j<length calls.
                  case calls ! j of (i, c) \<Rightarrow>
                    \<exists>ctx. context_arg c = Some ctx
                      \<and> (if 0 < i
                          then map_of ctx
                                 = (map_of (task_context store (tasks ! i)))
                                     (''previous_results'' \<mapsto>
                                        VList (map (\<lambda>r. VStr (content r)) (take j results)))
                          else ctx = task_context store (tasks ! i))))
       \<and> (\<exists>results calls self'.
            execute_parallel_workflow self store tasks = Some (Returned results, calls, self')
            \<and> results = map returned calls
            \<and> map (\<lambda>c. (callee c, task_arg c, context_arg c)) calls
                = map (\<lambda>s. (step_agent_name s, step_task s, Some (task_context store s)))
                    (filter (\<lambda>s. step_agent_name s \<in> dom (registered_agents self)) tasks)
            \<and> length results
                = length (filter (\<lambda>s. step_agent_name s \<in> dom (registered_agents self)) tasks)
            \<and> (\<forall>c\<in>set calls. \<exists>cls agent agent'.
                  registered_agents self (callee c) = Some (cls, agent)
                  \<and> run cls agent (task_arg c) (context_arg c)
                      = Some (Returned (returned c), agent')))"
proof (rule conjI)
  from sequential_loop_returns [OF assms, of store 0 "[]" "[]"]
  obtain results calls self' store' where loop:
    "sequential_loop self store 0 tasks [] [] = Some (Returned results, calls, self', store')"
    by blast
  from sequential_loop_calls [OF loop]
  have res: "results = map (\<lambda>(i, c). returned c) calls"
    and steps: "map (\<lambda>(i, c). (i, callee c, task_arg c)) calls
               = map (\<lambda>(i, s). (i, step_agent_name s, step_task s))
                   (filter (\<lambda>(i, s). step_agent_name s \<in> dom (registered_agents self))
                      (enumerate 0 tasks))"
    and runs: "\<forall>(i, c)\<in>set calls. \<exists>cls agent agent'.
                  registered_agents self (callee c) = Some (cls, agent)
                  \<and> run cls agent (task_arg c) (context_arg c)
                      = Some (Returned (returned c), agent')"
    by simp_all
  have "length results = length (map (\<lambda>(i, c). (i, callee c, task_arg c)) calls)"
    by (simp add: res)
  also have "\<dots> = length (filter (\<lambda>s. step_agent_name s \<in> dom (registered_agents self)) tasks)"
    unfolding steps by (simp add: length_filter_enumerate)
  finally have len: "length results
      = length (filter (\<lambda>s. step_agent_name s \<in> dom (registered_agents self)) tasks)" .
  have contexts: "\<forall>j<length calls.
                  case calls ! j of (i, c) \<Rightarrow>
                    \<exists>ctx. context_arg c = Some ctx
                      \<and> (if 0 < i
                          then map_of ctx
                                 = (map_of (task_context store (tasks ! i)))
                                     (''previous_results'' \<mapsto>
                                        VList (map (\<lambda>r. VStr (content r)) (take j results)))
                          else ctx = task_context store (tasks ! i))"
  proof (intro allI impI)
    fix j assume j: "j < length calls"
    obtain k c where kc: "calls ! j = (k, c)" by (cases "calls ! j")
    from sequential_loop_contexts [OF loop] j
    have "case calls ! j of (k, c) \<Rightarrow>
              0 \<le> k \<and> k < 0 + length tasks
              \<and> (\<exists>ctx. context_arg c = Some ctx
                   \<and> (if 0 < k
                       then map_of ctx
                              = (map_of (task_context store (tasks ! (k - 0))))
                                  (''previous_results'' \<mapsto>
                                     VList (map (\<lambda>r. VStr (content r)) (take j results)))
                       else ctx = task_context store (tasks ! (k - 0))))"
      by simp
    with kc show "case calls ! j of (i, c) \<Rightarrow>
                    \<exists>ctx. context_arg c = Some ctx
                      \<and> (if 0 < i
                          then map_of ctx
                                 = (map_of (task_context store (tasks ! i)))
                                     (''previous_results'' \<mapsto>
                                        VList (map (\<lambda>r. VStr (content r)) (take j results)))
                          else ctx = task_context store (tasks ! i))"
      by (auto split: if_splits)
  qed
  from loop have "execute_sequential_workflow self store tasks
              = Some (Returned results, calls, self', store')"
    by (simp add: execute_sequential_workflow_def)
  with res steps len runs contexts
  show "\<exists>results calls self' store'.
            execute_sequential_workflow self store tasks
              = Some (Returned results, calls, self', store')
            \<and> results = map (\<lambda>(i, c). returned c) calls
            \<and> map (\<lambda>(i, c). (i, callee c, task_arg c)) calls
                = map (\<lambda>(i, s). (i, step_agent_name s, step_task s))
                    (filter (\<lambda>(i, s). step_agent_name s \<in> dom (registered_agents self))
                       (enumerate 0 tasks))
            \<and> length results
                = length (filter (\<lambda>s. step_agent_name s \<in> dom (registered_agents self)) tasks)
            \<and> (\<forall>(i, c)\<in>set calls. \<exists>cls agent agent'.
                  registered_agents self (callee c) = Some (cls, agent)
                  \<and> run cls agent (task_arg c) (context_arg c)
                      = Some (Returned (returned c), agent'))
            \<and> (\<forall>j<length calls.
                  case calls ! j of (i, c) \<Rightarrow>
                    \<exists>ctx. context_arg c = Some ctx
                      \<and> (if 0 < i
                          then map_of ctx
                                 = (map_of (task_context store (tasks ! i)))
                                     (''previous_results'' \<mapsto>
                                        VList (map (\<lambda>r. VStr (content r)) (take j results)))
                          else ctx = task_context store (tasks ! i)))"
    by (intro exI conjI)
next
  from parallel_loop_returns [OF assms, of store "[]" "[]"]
  obtain results calls self' where loop:
    "parallel_loop self store tasks [] [] = Some (Returned results, calls, self')"
    by blast
  from parallel_loop_calls [OF loop]
  have res: "results = map returned calls"
    and steps: "map (\<lambda>c. (callee c, task_arg c, context_arg c)) calls
               = map (\<lambda>s. (step_agent_name s, step_task s, Some (task_context store s)))
                   (filter (\<lambda>s. step_agent_name s \<in> dom (registered_agents self)) tasks)"
    and runs: "\<forall>c\<in>set calls. \<exists>cls agent agent'.
                  registered_agents self (callee c) = Some (cls, agent)
                  \<and> run cls agent (task_arg c) (context_arg c)
                      = Some (Returned (returned c), agent')"
    by simp_all
  have "length results = length (map (\<lambda>c. (callee c, task_arg c, context_arg c)) calls)"
    by (simp add: res)
  also have "\<dots> = length (filter (\<lambda>s. step_agent_name s \<in> dom (registered_agents self)) tasks)"
    unfolding steps by simp
  finally have len: "length results
      = length (filter (\<lambda>s. step_agent_name s \<in> dom (registered_agents self)) tasks)" .
  from loop have "execute_parallel_workflow self store tasks
      = Some (Returned results, calls, self')"
    by (simp add: execute_parallel_workflow_def)
  with res steps len runs
  show "\<exists>results calls self'.
            execute_parallel_workflow self store tasks = Some (Returned results, calls, self')
            \<and> results = map returned calls
            \<and> map (\<lambda>c. (callee c, task_arg c, context_arg c)) calls
                = map (\<lambda>s. (step_agent_name s, step_task s, Some (task_context store s)))
                    (filter (\<lambda>s. step_agent_name s \<in> dom (registered_agents self)) tasks)
            \<and> length results
                = length (filter (\<lambda>s. step_agent_name s \<in> dom (registered_agents self)) tasks)
            \<and> (\<forall>c\<in>set calls. \<exists>cls agent agent'.
                  registered_agents self (callee c) = Some (cls, agent)
                  \<and> run cls agent (task_arg c) (context_arg c)
                      = Some (Returned (returned c), agent'))"
    by (intro exI conjI)
qed

text \<open>
  The agents of the demo without a project id, and three steps of which the second
  names an agent nobody registered.
\<close>

theorem workflows_skip_unregistered_witness:
  "(\<exists>results calls self' store'.
      execute_sequential_workflow researcher_and_tester empty_dicts steps_with_ghost
        = Some (Returned results, calls, self', store')
      \<and> map (\<lambda>(i, c). (i, callee c, task_arg c)) calls
          = [(0, ''ResearcherAgent'', ''Research''), (2, ''Agent1'', ''Test task'')]
      \<and> length results = 2)
   \<and> (\<exists>results calls self'.
      execute_parallel_workflow researcher_and_tester empty_dicts steps_with_ghost
        = Some (Returned results, calls, self')
      \<and> map (\<lambda>c. (callee c, task_arg c, context_arg c)) calls
          = [(''ResearcherAgent'', ''Research'', Some []), (''Agent1'', ''Test task'', Some [])]
      \<and> length results = 2)"
proof -
  have returning: "\<forall>s\<in>set steps_with_ghost. \<forall>cls agent.
             registered_agents researcher_and_tester (step_agent_name s) = Some (cls, agent) \<longrightarrow>
             (\<forall>c. \<exists>response agent'.
                run cls agent (step_task s) (Some c) = Some (Returned response, agent'))"
    by (simp add: orchestrator_doubles test_agent_run ResearcherAgent_def
        generate_with_tools_def)
  have registered: "dom (registered_agents researcher_and_tester)
      = {''ResearcherAgent'', ''Agent1''}"
    by (auto simp: orchestrator_doubles new_agent_def default_config_def)
  have seq_steps:
    "map (\<lambda>(i, s). (i, step_agent_name s, step_task s))
       (filter (\<lambda>(i, s). step_agent_name s \<in> dom (registered_agents researcher_and_tester))
          (enumerate 0 steps_with_ghost))
     = [(0, ''ResearcherAgent'', ''Research''), (2, ''Agent1'', ''Test task'')]"
    unfolding registered by (simp add: steps_with_ghost_def enumerate_simps)
  have par_steps:
    "map (\<lambda>s. (step_agent_name s, step_task s, Some (task_context empty_dicts s)))
       (filter (\<lambda>s. step_agent_name s \<in> dom (registered_agents researcher_and_tester))
          steps_with_ghost)
     = [(''ResearcherAgent'', ''Research'', Some []), (''Agent1'', ''Test task'', Some [])]"
    unfolding registered by (simp add: steps_with_ghost_def task_context_def empty_dicts_def)
  have count:
    "length (filter (\<lambda>s. step_agent_name s \<in> dom (registered_agents researcher_and_tester))
       steps_with_ghost) = 2"
    unfolding registered by (simp add: steps_with_ghost_def)
  from workflows_skip_unregistered [OF returning, of empty_dicts]
  show ?thesis
    unfolding seq_steps par_steps count
    by (elim conjE exE, intro conjI exI) assumption+
qed

text \<open>
  C10, as the code has it. After a sequential workflow has returned, for every step of
  index \<open>i > 0\<close> that carries a context dict and whose agent name is registered, the
  caller's dict has the key \<open>previous_results\<close>.
\<close>

theorem sequential_workflow_mutates_context:
  assumes "execute_sequential_workflow self store tasks
             = Some (Returned results, calls, self', store')"
    and "i < length tasks" and "0 < i"
    and "step_context (tasks ! i) = Some ref"
    and "step_agent_name (tasks ! i) \<in> dom (registered_agents self)"
  shows "''previous_results'' \<in> fst ` set (store' ref)"
proof -
  from assms(1) have loop:
    "sequential_loop self store 0 tasks [] [] = Some (Returned results, calls, self', store')"
    by (simp add: execute_sequential_workflow_def)
  from assms(3) have "0 < 0 + i" by simp
  from sequential_loop_mutates [OF loop assms(2) this assms(4,5)] show ?thesis .
qed

text \<open>Two steps, both registered: the dict of step 2 after the workflow.\<close>

theorem sequential_workflow_mutates_context_witness:
  "\<exists>results calls self' store'.
      execute_sequential_workflow two_agents empty_dicts two_steps
        = Some (Returned results, calls, self', store')
      \<and> ''previous_results'' \<in> fst ` set (store' 1)
      \<and> store' 1 = [(''previous_results'', VList [VStr ''Processed: Test task 1''])]"
proof -
  obtain results calls self' store' where run:
    "execute_sequential_workflow two_agents empty_dicts two_steps
       = Some (Returned results, calls, self', store')"
    and stored: "store' 1 = [(''previous_results'', VList [VStr ''Processed: Test task 1''])]"
    by (simp add: execute_sequential_workflow_def orchestrator_doubles test_agent_run)
  have "1 < length two_steps" "step_context (two_steps ! 1) = Some 1"
    "step_agent_name (two_steps ! 1) \<in> dom (registered_agents two_agents)"
    by (simp_all add: orchestrator_doubles new_agent_def default_config_def)
  from sequential_workflow_mutates_context [OF run this(1) _ this(2,3)]
  have "''previous_results'' \<in> fst ` set (store' 1)" by simp
  with run stored show ?thesis by blast
qed

text \<open>
  Against C10 as stated: the step of index 1 carries the dict at reference 1 and names
  an agent nobody registered. The workflow returns the result of step 0, and the dict
  is as empty after it as before.
\<close>

theorem sequential_workflow_skipped_step_untouched:
  "dict_after
     (execute_sequential_workflow two_agents empty_dicts
        [\<lparr>step_agent_name = ''Agent1'', step_task = ''Test task 1'', step_context = Some 0\<rparr>,
         \<lparr>step_agent_name = ''Ghost'', step_task = ''Haunt'', step_context = Some 1\<rparr>])
     1
   = Some []
   \<and> map_option fst
       (execute_sequential_workflow two_agents empty_dicts
          [\<lparr>step_agent_name = ''Agent1'', step_task = ''Test task 1'', step_context = Some 0\<rparr>,
           \<lparr>step_agent_name = ''Ghost'', step_task = ''Haunt'', step_context = Some 1\<rparr>])
     = Some (Returned [\<lparr>agent_name = ''Agent1'', content = ''Processed: Test task 1'',
                        status = COMPLETED, metadata = [], tool_calls = [], error = None\<rparr>])"
  by (simp add: dict_after_def execute_sequential_workflow_def orchestrator_doubles
      test_agent_run)

end
